theory Spec2Isabelle
  imports Main "HOL-Library.Sublist" "HOL-Library.AList"
begin

section \<open>Python values\<close>

text \<open>
  A Python \<open>str\<close> is a sequence of Unicode code points; a code point is a natural
  number (Isabelle's \<open>char\<close> has only 256 values, and the JSON escapes of the second
  script produce code points beyond them). \<open>py ''abc''\<close> is the \<open>str\<close> of an ASCII
  literal.
\<close>

type_synonym pystr = "nat list"

abbreviation py :: "string \<Rightarrow> pystr" where
  "py s \<equiv> map of_char s"

text \<open>
  The values both scripts build from literals and that \<open>json.loads\<close> returns:
  \<open>None\<close>, \<open>bool\<close>, \<open>int\<close> (unbounded), \<open>float\<close>, \<open>str\<close>, \<open>list\<close> and \<open>dict\<close>. A
  \<open>dict\<close> keeps its insertion order, so it is an association list (with distinct keys).
  A \<open>float\<close> is carried as the JSON number text it was read from: IEEE arithmetic is
  not modelled, and the two things the second script does with a float (its truth value
  and its \<open>repr\<close>) are parameters of the model, see \<open>floats\<close> below.
\<close>

datatype pyval =
    PyNone
  | PyBool bool
  | PyInt int
  | PyFloat pystr
  | PyStr pystr
  | PyList "pyval list"
  | PyDict "(pystr \<times> pyval) list"

datatype py_error = IndexError | TypeError | JSONDecodeError | APIError

text \<open>\<open>d.get(k)\<close> on a value that is expected to be a \<open>dict\<close>.\<close>

fun getitem :: "pyval \<Rightarrow> pystr \<Rightarrow> pyval option" where
  "getitem (PyDict kvs) k = map_of kvs k"
| "getitem _ k = None"

section \<open>scripts/openai_example.py\<close>

subsection \<open>The API objects\<close>

text \<open>
  What \<open>client.chat.completions.create\<close> returns, as far as the script reads it: a
  completion has \<open>choices\<close>, a choice has a \<open>message\<close>, and a message (whose role is
  always \<open>assistant\<close>) has an optional \<open>content\<close> and an optional list of \<open>tool_calls\<close>,
  each with an \<open>id\<close> and a function name and arguments.
\<close>

record tool_call =
  tc_id :: pystr
  tc_name :: pystr
  tc_arguments :: pystr

record chat_message =
  content :: "pystr option"
  tool_calls :: "tool_call list option"

record choice =
  message :: chat_message

record completion =
  choices :: "choice list"

text \<open>
  An entry of the \<open>messages\<close> list is either a \<open>dict\<close> literal of the script or the
  message object of a response, appended as it is.
\<close>

datatype msg = Dict "(pystr \<times> pyval) list" | Obj chat_message

fun role_of :: "msg \<Rightarrow> pyval option" where
  "role_of (Dict kvs) = map_of kvs (py ''role'')"
| "role_of (Obj m) = Some (PyStr (py ''assistant''))"

record request =
  req_model :: pystr
  req_messages :: "msg list"
  req_tools :: "pyval list option"
  req_tool_choice :: "pystr option"

text \<open>The three \<open>print\<close> calls write the \<open>repr\<close> of an object; the model keeps the object.\<close>

datatype printed =
    PrintMessage chat_message
  | PrintToolCalls "tool_call list option"
  | PrintChoice choice

subsection \<open>The script\<close>

definition GoogleSearch :: pyval where
  "GoogleSearch =
     PyDict [
       (py ''type'', PyStr (py ''function'')),
       (py ''function'', PyDict [
          (py ''name'', PyStr (py ''GoogleSearch'')),
          (py ''description'', PyStr (py ''Search Google for the provided query.'')),
          (py ''parameters'', PyDict [
             (py ''type'', PyStr (py ''object'')),
             (py ''properties'', PyDict [
                (py ''query'', PyDict [(py ''type'', PyStr (py ''string''))])]),
             (py ''required'', PyList [PyStr (py ''query'')]),
             (py ''additionalProperties'', PyBool False)]),
          (py ''strict'', PyBool True)])]"

definition tools :: "pyval list" where
  "tools = [GoogleSearch]"

definition initial_messages :: "msg list" where
  "initial_messages =
     [Dict [(py ''role'', PyStr (py ''user'')),
            (py ''content'', PyStr (py ''How tall is Mt. St. Helens?''))]]"

text \<open>The \<open>dict\<close> of lines 44 to 48.\<close>

definition tool_message :: "tool_call \<Rightarrow> msg" where
  "tool_message tool_call =
     Dict [(py ''role'', PyStr (py ''tool'')),
           (py ''tool_call_id'', PyStr (tc_id tool_call)),
           (py ''content'', PyStr (py ''9,033 feet''))]"

text \<open>
  \<open>choice.message.tool_calls[0]\<close> (line 36): subscripting \<open>None\<close> raises \<open>TypeError\<close>,
  index 0 of an empty list raises \<open>IndexError\<close>.
\<close>

definition first_tool_call :: "chat_message \<Rightarrow> py_error + tool_call" where
  "first_tool_call m =
     (case tool_calls m of
        None \<Rightarrow> Inl TypeError
      | Some [] \<Rightarrow> Inl IndexError
      | Some (tool_call # _) \<Rightarrow> Inr tool_call)"

text \<open>
  The state of the script when it stops: the requests it has sent (in order), the
  \<open>messages\<close> list, what it has printed, and the exception that stopped it, if any.
\<close>

record run =
  requests :: "request list"
  messages :: "msg list"
  stdout :: "printed list"
  raised :: "py_error option"

definition first_request :: request where
  "first_request =
     \<lparr>req_model = py ''gpt-4o'', req_messages = initial_messages,
      req_tools = Some tools, req_tool_choice = Some (py ''required'')\<rparr>"

definition second_request :: "msg list \<Rightarrow> request" where
  "second_request msgs =
     \<lparr>req_model = py ''gpt-4o'', req_messages = msgs,
      req_tools = None, req_tool_choice = None\<rparr>"

text \<open>
  The script, top to bottom. \<open>create\<close> is \<open>client.chat.completions.create\<close>: it answers
  a request with a completion or raises. (The two requests of a run differ, so a function
  of the request can give any pair of answers.) Every statement that can raise is a
  branch; an exception ends the run where it is raised.
\<close>

definition openai_example :: "(request \<Rightarrow> py_error + completion) \<Rightarrow> run" where
  "openai_example create =
     (let s1 = \<lparr>requests = [first_request], messages = initial_messages,
                stdout = [], raised = None\<rparr>
      in case create first_request of
           Inl e \<Rightarrow> s1\<lparr>raised := Some e\<rparr>
         | Inr completion \<Rightarrow>
             (case choices completion of
                [] \<Rightarrow> s1\<lparr>raised := Some IndexError\<rparr>
              | choice # _ \<Rightarrow>
                  (case first_tool_call (message choice) of
                     Inl e \<Rightarrow> s1\<lparr>raised := Some e\<rparr>
                   | Inr tool_call \<Rightarrow>
                       (let out = [PrintMessage (message choice),
                                   PrintToolCalls (tool_calls (message choice))];
                            msgs = initial_messages @ [Obj (message choice)]
                                     @ [tool_message tool_call];
                            s2 = \<lparr>requests = [first_request, second_request msgs],
                                  messages = msgs, stdout = out, raised = None\<rparr>
                        in case create (second_request msgs) of
                             Inl e \<Rightarrow> s2\<lparr>raised := Some e\<rparr>
                           | Inr completion2 \<Rightarrow>
                               (case choices completion2 of
                                  [] \<Rightarrow> s2\<lparr>raised := Some IndexError\<rparr>
                                | choice2 # _ \<Rightarrow>
                                    s2\<lparr>stdout := out @ [PrintChoice choice2]\<rparr>)))))"

subsection \<open>Properties of tool definitions and of the message log\<close>

definition is_strict :: "pyval \<Rightarrow> bool" where
  "is_strict t =
     (case getitem t (py ''function'') of
        Some f \<Rightarrow> getitem f (py ''strict'') = Some (PyBool True)
      | None \<Rightarrow> False)"

definition parameters_of :: "pyval \<Rightarrow> pyval option" where
  "parameters_of t =
     (case getitem t (py ''function'') of
        Some f \<Rightarrow> getitem f (py ''parameters'')
      | None \<Rightarrow> None)"

definition forbids_additional :: "pyval \<Rightarrow> bool" where
  "forbids_additional t =
     (case parameters_of t of
        Some p \<Rightarrow> getitem p (py ''additionalProperties'') = Some (PyBool False)
      | None \<Rightarrow> False)"

definition declared_properties :: "pyval \<Rightarrow> pystr list" where
  "declared_properties t =
     (case parameters_of t of
        Some p \<Rightarrow> (case getitem p (py ''properties'') of
                     Some (PyDict props) \<Rightarrow> map fst props
                   | _ \<Rightarrow> [])
      | None \<Rightarrow> [])"

definition required_properties :: "pyval \<Rightarrow> pyval list" where
  "required_properties t =
     (case parameters_of t of
        Some p \<Rightarrow> (case getitem p (py ''required'') of
                     Some (PyList req) \<Rightarrow> req
                   | _ \<Rightarrow> [])
      | None \<Rightarrow> [])"

definition requires_all_properties :: "pyval \<Rightarrow> bool" where
  "requires_all_properties t =
     list_all (\<lambda>k. PyStr k \<in> set (required_properties t)) (declared_properties t)"

text \<open>The messages of role \<open>tool\<close> in a list, and the \<open>tool_call_id\<close> each carries.\<close>

definition is_tool_message :: "msg \<Rightarrow> bool" where
  "is_tool_message m = (role_of m = Some (PyStr (py ''tool'')))"

definition tool_messages :: "msg list \<Rightarrow> msg list" where
  "tool_messages ms = filter is_tool_message ms"

fun tool_call_id_of :: "msg \<Rightarrow> pyval option" where
  "tool_call_id_of (Dict kvs) = map_of kvs (py ''tool_call_id'')"
| "tool_call_id_of (Obj m) = None"

definition answers_to :: "pystr \<Rightarrow> msg list \<Rightarrow> msg list" where
  "answers_to i ms = filter (\<lambda>m. tool_call_id_of m = Some (PyStr i)) (tool_messages ms)"

text \<open>The keys of a \<open>dict\<close> message, in order.\<close>

fun keys_of :: "msg \<Rightarrow> pystr list" where
  "keys_of (Dict kvs) = map fst kvs"
| "keys_of (Obj m) = []"

text \<open>Whether a response asks for tools: its first choice has a non-empty \<open>tool_calls\<close>.\<close>

definition requests_tools :: "py_error + completion \<Rightarrow> bool" where
  "requests_tools r =
     (case r of
        Inl e \<Rightarrow> False
      | Inr c \<Rightarrow> (case choices c of
                   [] \<Rightarrow> False
                 | ch # _ \<Rightarrow> (case tool_calls (message ch) of
                                None \<Rightarrow> False
                              | Some tcs \<Rightarrow> tcs \<noteq> [])))"

text \<open>What the run has appended to the \<open>messages\<close> list it started with.\<close>

definition appended :: "run \<Rightarrow> msg list" where
  "appended r = drop (length initial_messages) (messages r)"

subsection \<open>Sample answers of the API\<close>

definition call :: "string \<Rightarrow> tool_call" where
  "call i = \<lparr>tc_id = py i, tc_name = py ''GoogleSearch'',
             tc_arguments = py ''{\"query\":\"Mt. St. Helens height\"}''\<rparr>"

definition reply :: "pystr option \<Rightarrow> tool_call list option \<Rightarrow> py_error + completion" where
  "reply text calls =
     Inr \<lparr>choices = [\<lparr>message = \<lparr>content = text, tool_calls = calls\<rparr>\<rparr>]\<rparr>"

text \<open>One tool call while tools are offered, then the answer in text.\<close>

definition api_scenario_a :: "request \<Rightarrow> py_error + completion" where
  "api_scenario_a r =
     (if req_tools r = None then reply (Some (py ''Mt. St. Helens is 9,033 feet tall.'')) None
      else reply None (Some [call ''call_1'']))"

text \<open>Two tool calls in one assistant message.\<close>

definition api_parallel :: "request \<Rightarrow> py_error + completion" where
  "api_parallel r = reply None (Some [call ''call_1'', call ''call_2''])"

text \<open>A model that asks for a tool in every response.\<close>

definition api_always_tools :: "request \<Rightarrow> py_error + completion" where
  "api_always_tools r = reply None (Some [call ''call_1''])"

text \<open>Responses without tool calls: \<open>tool_calls\<close> is \<open>None\<close>, or an empty list.\<close>

definition api_no_tools :: "request \<Rightarrow> py_error + completion" where
  "api_no_tools r = reply (Some (py ''It is tall.'')) None"

definition api_empty_calls :: "request \<Rightarrow> py_error + completion" where
  "api_empty_calls r = reply (Some (py ''It is tall.'')) (Some [])"

section \<open>The json module, as far as the second script uses it\<close>

text \<open>
  \<open>generate_content.py\<close> calls \<open>json.loads\<close> on the text of an environment variable
  and \<open>json.dumps(..., indent=2)\<close> on what it read and on its own \<open>dict\<close>. Both are
  functions of the Python library, modelled here from CPython's \<open>json.decoder\<close>,
  \<open>json.scanner\<close> and \<open>json.encoder\<close> with their default arguments. Every way the
  decoder rejects its input is the one value \<open>JSONDecodeError\<close>. Limits of the
  interpreter (recursion depth, memory, the digit limit of \<open>int\<close>) are not modelled.
\<close>

subsection \<open>json.loads\<close>

text \<open>
  \<open>ord c\<close> is the code point of an ASCII character.
\<close>

abbreviation (input) ord :: "char \<Rightarrow> nat" where
  "ord c \<equiv> of_char c"

text \<open>
  The decoder skips blanks, tabs, line feeds and carriage returns between tokens.
\<close>

definition is_ws :: "nat \<Rightarrow> bool" where
  "is_ws c = (c = ord CHR '' '' \<or> c = 9 \<or> c = 10 \<or> c = 13)"

definition skip_ws :: "pystr \<Rightarrow> pystr" where
  "skip_ws s = dropWhile is_ws s"

definition is_digit :: "nat \<Rightarrow> bool" where
  "is_digit c = (ord CHR ''0'' \<le> c \<and> c \<le> ord CHR ''9'')"

text \<open>
  \<open>decode_uXXXX\<close> reads the four hexadecimal digits after \<open>\u\<close>; \<open>BACKSLASH\<close> is the
  table of the one-letter escapes.
\<close>

definition hex_value :: "nat \<Rightarrow> nat option" where
  "hex_value c =
     (if ord CHR ''0'' \<le> c \<and> c \<le> ord CHR ''9'' then Some (c - ord CHR ''0'')
      else if ord CHR ''a'' \<le> c \<and> c \<le> ord CHR ''f'' then Some (c - ord CHR ''a'' + 10)
      else if ord CHR ''A'' \<le> c \<and> c \<le> ord CHR ''F'' then Some (c - ord CHR ''A'' + 10)
      else None)"

definition decode_uXXXX :: "pystr \<Rightarrow> nat option" where
  "decode_uXXXX s =
     (case map hex_value (take 4 s) of
        [Some a, Some b, Some c, Some d] \<Rightarrow> Some (((a * 16 + b) * 16 + c) * 16 + d)
      | _ \<Rightarrow> None)"

definition BACKSLASH :: "nat \<Rightarrow> nat option" where
  "BACKSLASH esc =
     (if esc = ord CHR ''\"'' then Some (ord CHR ''\"'')
      else if esc = 92 then Some 92
      else if esc = ord CHR ''/'' then Some (ord CHR ''/'')
      else if esc = ord CHR ''b'' then Some 8
      else if esc = ord CHR ''f'' then Some 12
      else if esc = ord CHR ''n'' then Some 10
      else if esc = ord CHR ''r'' then Some 13
      else if esc = ord CHR ''t'' then Some 9
      else None)"

text \<open>
  Put one more element in front of the list a successful scan returns.
\<close>

definition push :: "'a \<Rightarrow> py_error + ('a list \<times> pystr) \<Rightarrow> py_error + ('a list \<times> pystr)" where
  "push x r = (case r of Inl e \<Rightarrow> Inl e | Inr (xs, rest) \<Rightarrow> Inr (x # xs, rest))"

text \<open>
  \<open>scanstring\<close> is given the text after the opening quote and returns the string and the
  text after the closing quote. A control character (below 32) inside the string is
  rejected (\<open>strict\<close> is on by default). A \<open>\uXXXX\<close> escape of a high surrogate that is
  followed by a \<open>\uXXXX\<close> escape of a low surrogate gives one code point above 0xFFFF.
  The codes 34, 92 and 117 are the quote, the backslash and the letter u.
\<close>

fun scanstring :: "pystr \<Rightarrow> py_error + (pystr \<times> pystr)" where
  "scanstring [] = Inl JSONDecodeError"
| "scanstring (c # cs) =
     (if c = ord CHR ''\"'' then Inr ([], cs)
      else if c = 92 then
        (case cs of
           [] \<Rightarrow> Inl JSONDecodeError
         | esc # es \<Rightarrow>
             if esc = ord CHR ''u'' then
               (case decode_uXXXX es of
                  None \<Rightarrow> Inl JSONDecodeError
                | Some uni \<Rightarrow>
                    if 0xD800 \<le> uni \<and> uni \<le> 0xDBFF \<and> take 2 (drop 4 es) = [92, ord CHR ''u''] then
                      (case decode_uXXXX (drop 6 es) of
                         None \<Rightarrow> Inl JSONDecodeError
                       | Some uni2 \<Rightarrow>
                           if 0xDC00 \<le> uni2 \<and> uni2 \<le> 0xDFFF then
                             push (0x10000 + ((uni - 0xD800) * 1024 + (uni2 - 0xDC00)))
                               (scanstring (drop 10 es))
                           else push uni (scanstring (drop 4 es)))
                    else push uni (scanstring (drop 4 es)))
             else
               (case BACKSLASH esc of
                  None \<Rightarrow> Inl JSONDecodeError
                | Some ch \<Rightarrow> push ch (scanstring es)))
      else if c < 32 then Inl JSONDecodeError
      else push c (scanstring cs))"

lemma scanstring_shorter:
  "scanstring s = Inr (str, rest) \<Longrightarrow> length rest < length s"
proof (induction s arbitrary: str rest rule: scanstring.induct)
  case 1
  then show ?case by simp
next
  case (2 c cs)
  from "2.prems" "2.IH" show ?case
    by (fastforce simp add: push_def split: if_splits list.splits option.splits sum.splits prod.splits)
qed

text \<open>
  Numbers: an optional minus sign, an integer part (a single 0, or a digit from 1 to 9
  and more digits), an optional fraction and an optional exponent. An \<open>e\<close> that no digit
  follows is not part of the number. With neither fraction nor exponent the number is an
  \<open>int\<close>, otherwise a \<open>float\<close>.
\<close>

definition nat_of_digits :: "pystr \<Rightarrow> nat" where
  "nat_of_digits ds = foldl (\<lambda>a d. 10 * a + (d - ord CHR ''0'')) 0 ds"

definition match_integer :: "pystr \<Rightarrow> (pystr \<times> pystr) option" where
  "match_integer s =
     (case s of
        [] \<Rightarrow> None
      | d # r \<Rightarrow>
          if d = ord CHR ''0'' then Some ([d], r)
          else if ord CHR ''1'' \<le> d \<and> d \<le> ord CHR ''9''
            then Some (d # takeWhile is_digit r, dropWhile is_digit r)
          else None)"

definition match_fraction :: "pystr \<Rightarrow> pystr \<times> pystr" where
  "match_fraction s =
     (case s of
        dot # d # r \<Rightarrow>
          if dot = ord CHR ''.'' \<and> is_digit d
            then (dot # d # takeWhile is_digit r, dropWhile is_digit r)
          else ([], s)
      | _ \<Rightarrow> ([], s))"

definition match_exponent :: "pystr \<Rightarrow> pystr \<times> pystr" where
  "match_exponent s =
     (case s of
        e # r \<Rightarrow>
          if e = ord CHR ''e'' \<or> e = ord CHR ''E'' then
            (let (sign, r') =
                   (case r of
                      sg # r' \<Rightarrow>
                        if sg = ord CHR ''-'' \<or> sg = ord CHR ''+'' then ([sg], r') else ([], r)
                    | [] \<Rightarrow> ([], r))
             in if takeWhile is_digit r' \<noteq> []
                  then (e # sign @ takeWhile is_digit r', dropWhile is_digit r')
                else ([], s))
          else ([], s)
      | [] \<Rightarrow> ([], s))"

definition match_number :: "pystr \<Rightarrow> (pyval \<times> pystr) option" where
  "match_number s =
     (let (sign, s1) = (case s of c # r \<Rightarrow> if c = ord CHR ''-'' then ([c], r) else ([], s)
                        | [] \<Rightarrow> ([], s))
      in case match_integer s1 of
           None \<Rightarrow> None
         | Some (digits, s2) \<Rightarrow>
             (let (frac, s3) = match_fraction s2;
                  (exp, s4) = match_exponent s3
              in if frac = [] \<and> exp = []
                   then Some (PyInt (if sign = [] then int (nat_of_digits digits)
                                     else - int (nat_of_digits digits)), s4)
                 else Some (PyFloat (sign @ digits @ frac @ exp), s4)))"

text \<open>
  A JSON object becomes a \<open>dict\<close>: of two members with the same name the later value
  is kept, at the place of the first.
\<close>

definition dict_of_pairs :: "(pystr \<times> pyval) list \<Rightarrow> (pystr \<times> pyval) list" where
  "dict_of_pairs pairs = foldl (\<lambda>d (k, v). AList.update k v d) [] pairs"

lemma skip_ws_length: "length (skip_ws s) \<le> length s"
  by (simp add: skip_ws_def length_dropWhile_le)

lemma skip_ws_Cons_length: "skip_ws s = c # r \<Longrightarrow> length r < length s"
  using skip_ws_length [of s] by simp

text \<open>
  \<open>scan_once\<close> reads one value at the start of the text and returns it with the rest of
  the text. \<open>parse_array\<close> and \<open>parse_object\<close> read the elements and members after the
  opening bracket, when the array or object is not empty; they go on after each comma.
  The test \<open>length rest < length s\<close> before they do says that the value just read used
  up some text. It is there for the termination proof only: \<open>scan_shorter\<close> below shows it
  never fails. The codes 123, 125, 91, 93, 58 and 44 are the braces, the brackets, the
  colon and the comma.
\<close>

function scan_once :: "pystr \<Rightarrow> py_error + (pyval \<times> pystr)"
  and parse_array :: "pystr \<Rightarrow> py_error + (pyval list \<times> pystr)"
  and parse_object :: "pystr \<Rightarrow> py_error + ((pystr \<times> pyval) list \<times> pystr)"
where
  "scan_once s =
     (case s of
        [] \<Rightarrow> Inl JSONDecodeError
      | c # cs \<Rightarrow>
          if c = ord CHR ''\"'' then
            (case scanstring cs of
               Inl e \<Rightarrow> Inl e
             | Inr (str, rest) \<Rightarrow> Inr (PyStr str, rest))
          else if c = ord CHR ''{'' then
            (case skip_ws cs of
               [] \<Rightarrow> Inl JSONDecodeError
             | c' # rest \<Rightarrow>
                 if c' = ord CHR ''}'' then Inr (PyDict [], rest)
                 else (case parse_object (c' # rest) of
                         Inl e \<Rightarrow> Inl e
                       | Inr (pairs, rest') \<Rightarrow> Inr (PyDict (dict_of_pairs pairs), rest')))
          else if c = ord CHR ''['' then
            (case skip_ws cs of
               [] \<Rightarrow> Inl JSONDecodeError
             | c' # rest \<Rightarrow>
                 if c' = ord CHR '']'' then Inr (PyList [], rest)
                 else (case parse_array (c' # rest) of
                         Inl e \<Rightarrow> Inl e
                       | Inr (values, rest') \<Rightarrow> Inr (PyList values, rest')))
          else if prefix (py ''null'') s then Inr (PyNone, drop 4 s)
          else if prefix (py ''true'') s then Inr (PyBool True, drop 4 s)
          else if prefix (py ''false'') s then Inr (PyBool False, drop 5 s)
          else if prefix (py ''NaN'') s then Inr (PyFloat (py ''NaN''), drop 3 s)
          else if prefix (py ''Infinity'') s then Inr (PyFloat (py ''Infinity''), drop 8 s)
          else if prefix (py ''-Infinity'') s then Inr (PyFloat (py ''-Infinity''), drop 9 s)
          else (case match_number s of
                  None \<Rightarrow> Inl JSONDecodeError
                | Some r \<Rightarrow> Inr r))"
| "parse_array s =
     (case scan_once s of
        Inl e \<Rightarrow> Inl e
      | Inr (v, rest) \<Rightarrow>
          if length rest < length s then
            (case skip_ws rest of
               [] \<Rightarrow> Inl JSONDecodeError
             | c # rest' \<Rightarrow>
                 if c = ord CHR '']'' then Inr ([v], rest')
                 else if c = ord CHR '','' then push v (parse_array (skip_ws rest'))
                 else Inl JSONDecodeError)
          else Inl JSONDecodeError)"
| "parse_object s =
     (case s of
        [] \<Rightarrow> Inl JSONDecodeError
      | q # s1 \<Rightarrow>
          if q = ord CHR ''\"'' then
            (case scanstring s1 of
               Inl e \<Rightarrow> Inl e
             | Inr (key, s2) \<Rightarrow>
                 (case skip_ws s2 of
                    [] \<Rightarrow> Inl JSONDecodeError
                  | colon # s3 \<Rightarrow>
                      if colon = ord CHR '':'' then
                        (case scan_once (skip_ws s3) of
                           Inl e \<Rightarrow> Inl e
                         | Inr (v, s4) \<Rightarrow>
                             if length s4 < length s then
                               (case skip_ws s4 of
                                  [] \<Rightarrow> Inl JSONDecodeError
                                | c # s5 \<Rightarrow>
                                    if c = ord CHR ''}'' then Inr ([(key, v)], s5)
                                    else if c = ord CHR '','' then
                                      push (key, v) (parse_object (skip_ws s5))
                                    else Inl JSONDecodeError)
                             else Inl JSONDecodeError)
                      else Inl JSONDecodeError))
          else Inl JSONDecodeError)"
  by pat_completeness auto

termination
proof (relation "measure (\<lambda>x. case x of Inl s \<Rightarrow> 2 * length s
                                   | Inr (Inl s) \<Rightarrow> 2 * length s + 1
                                   | Inr (Inr s) \<Rightarrow> 2 * length s + 1)", goal_cases)
  case 1
  then show ?case by simp
next
  case (2 s c cs c' rest)
  then show ?case using skip_ws_length [of cs] by simp
next
  case (3 s c cs c' rest)
  then show ?case using skip_ws_length [of cs] by simp
next
  case (4 s)
  then show ?case by simp
next
  case (5 s x v rest c rest')
  then show ?case using skip_ws_length [of rest'] skip_ws_Cons_length [of rest c rest'] by simp
next
  case (6 s q s1 x key s2 colon s3)
  then show ?case
    using scanstring_shorter [of s1 key s2] skip_ws_length [of s3]
      skip_ws_Cons_length [of s2 colon s3] by simp
next
  case (7 s q s1 x key s2 colon s3 y v s4 c s5)
  then show ?case using skip_ws_length [of s5] skip_ws_Cons_length [of s4 c s5] by simp
qed

declare scan_once.simps [simp del] parse_array.simps [simp del] parse_object.simps [simp del]

text \<open>
  \<open>json.loads\<close>: one value, with nothing but white space before and after it.
\<close>

definition json_loads :: "pystr \<Rightarrow> py_error + pyval" where
  "json_loads s =
     (case scan_once (skip_ws s) of
        Inl e \<Rightarrow> Inl e
      | Inr (obj, rest) \<Rightarrow> if skip_ws rest = [] then Inr obj else Inl JSONDecodeError)"

subsection \<open>Truth values and floats\<close>

text \<open>
  The part of Python's \<open>float\<close> the script depends on: \<open>float_repr\<close> gives the text
  \<open>json.dumps\<close> writes for the float read from a number text (its \<open>repr\<close>, or \<open>NaN\<close>,
  \<open>Infinity\<close>, \<open>-Infinity\<close>), and \<open>float_bool\<close> says whether that float is non-zero.
\<close>

record floats =
  float_repr :: "pystr \<Rightarrow> pystr"
  float_bool :: "pystr \<Rightarrow> bool"

text \<open>
  What \<open>if x:\<close> tests.
\<close>

fun truthy :: "floats \<Rightarrow> pyval \<Rightarrow> bool" where
  "truthy F PyNone = False"
| "truthy F (PyBool b) = b"
| "truthy F (PyInt i) = (i \<noteq> 0)"
| "truthy F (PyFloat x) = float_bool F x"
| "truthy F (PyStr s) = (s \<noteq> [])"
| "truthy F (PyList xs) = (xs \<noteq> [])"
| "truthy F (PyDict kvs) = (kvs \<noteq> [])"

subsection \<open>json.dumps with an indent\<close>

fun decimal :: "nat \<Rightarrow> pystr" where
  "decimal n = (if n < 10 then [ord CHR ''0'' + n]
                else decimal (n div 10) @ [ord CHR ''0'' + n mod 10])"

declare decimal.simps [simp del]

definition int_repr :: "int \<Rightarrow> pystr" where
  "int_repr i = (if i < 0 then ord CHR ''-'' # decimal (nat (- i)) else decimal (nat i))"

text \<open>
  \<open>ensure_ascii\<close> is on by default: a string is written between quotes, with the quote
  and the backslash escaped, the short escapes for backspace, form feed, line feed,
  carriage return and tab, and \<open>\uXXXX\<close> for every other code point outside the range from
  the blank to the tilde; a code point above 0xFFFF is written as a surrogate pair.
\<close>

definition hex_digit :: "nat \<Rightarrow> nat" where
  "hex_digit d = (if d < 10 then ord CHR ''0'' + d else ord CHR ''a'' + (d - 10))"

definition u_escape :: "nat \<Rightarrow> pystr" where
  "u_escape n =
     [92, ord CHR ''u'', hex_digit (n div 4096 mod 16), hex_digit (n div 256 mod 16),
      hex_digit (n div 16 mod 16), hex_digit (n mod 16)]"

definition escape_char :: "nat \<Rightarrow> pystr" where
  "escape_char c =
     (if c = 92 then [92, 92]
      else if c = ord CHR ''\"'' then [92, ord CHR ''\"'']
      else if c = 8 then [92, ord CHR ''b'']
      else if c = 12 then [92, ord CHR ''f'']
      else if c = 10 then [92, ord CHR ''n'']
      else if c = 13 then [92, ord CHR ''r'']
      else if c = 9 then [92, ord CHR ''t'']
      else if ord CHR '' '' \<le> c \<and> c \<le> ord CHR ''~'' then [c]
      else if c < 0x10000 then u_escape c
      else u_escape (0xD800 + (c - 0x10000) div 1024 mod 1024)
             @ u_escape (0xDC00 + (c - 0x10000) mod 1024))"

definition encode_basestring_ascii :: "pystr \<Rightarrow> pystr" where
  "encode_basestring_ascii s = ord CHR ''\"'' # concat (map escape_char s) @ [ord CHR ''\"'']"

text \<open>
  With \<open>indent\<close> given, the items of a non-empty list or \<open>dict\<close> stand on lines of their
  own, indented by \<open>indent\<close> blanks for each level, with a comma after each but the last;
  a \<open>dict\<close> key is followed by a colon and a blank. Empty ones are \<open>[]\<close> and \<open>{}\<close>.
\<close>

definition newline_indent :: "nat \<Rightarrow> nat \<Rightarrow> pystr" where
  "newline_indent indent level = 10 # replicate (indent * level) (ord CHR '' '')"

fun join :: "pystr \<Rightarrow> pystr list \<Rightarrow> pystr" where
  "join sep [] = []"
| "join sep [x] = x"
| "join sep (x # y # ys) = x @ sep @ join sep (y # ys)"

fun iterencode :: "floats \<Rightarrow> nat \<Rightarrow> nat \<Rightarrow> pyval \<Rightarrow> pystr" where
  "iterencode F indent level PyNone = py ''null''"
| "iterencode F indent level (PyBool b) = (if b then py ''true'' else py ''false'')"
| "iterencode F indent level (PyInt i) = int_repr i"
| "iterencode F indent level (PyFloat x) = float_repr F x"
| "iterencode F indent level (PyStr s) = encode_basestring_ascii s"
| "iterencode F indent level (PyList xs) =
     (if xs = [] then py ''[]''
      else py ''['' @ newline_indent indent (level + 1)
           @ join (py '','' @ newline_indent indent (level + 1))
               (map (iterencode F indent (level + 1)) xs)
           @ newline_indent indent level @ py '']'')"
| "iterencode F indent level (PyDict kvs) =
     (if kvs = [] then py ''{}''
      else py ''{'' @ newline_indent indent (level + 1)
           @ join (py '','' @ newline_indent indent (level + 1))
               (map (\<lambda>kv. encode_basestring_ascii (fst kv) @ py '': ''
                           @ iterencode F indent (level + 1) (snd kv)) kvs)
           @ newline_indent indent level @ py ''}'')"

definition json_dumps :: "floats \<Rightarrow> nat \<Rightarrow> pyval \<Rightarrow> pystr" where
  "json_dumps F indent obj = iterencode F indent 0 obj"

section \<open>examples/workflows/context_example/generate_content.py\<close>

text \<open>
  What the script can read when it starts: the environment, the command line, standard
  input, and the clock, given as the text \<open>datetime.now().isoformat()\<close> returns.
\<close>

record world =
  environ :: "pystr \<rightharpoonup> pystr"
  argv :: "pystr list"
  stdin :: pystr
  now_isoformat :: pystr

definition os_getenv :: "world \<Rightarrow> pystr \<Rightarrow> pystr option" where
  "os_getenv w name = environ w name"

text \<open>
  Lines 7 to 10: \<open>globals_data\<close> is the empty \<open>dict\<close> unless the variable is set to a
  non-empty text, which is then decoded (and may be rejected).
\<close>

definition load_globals :: "world \<Rightarrow> py_error + pyval" where
  "load_globals w =
     (case os_getenv w (py ''DIVE_GLOBALS'') of
        None \<Rightarrow> Inr (PyDict [])
      | Some globals_env \<Rightarrow>
          if globals_env \<noteq> [] then json_loads globals_env else Inr (PyDict []))"

text \<open>
  The text of line 15.
\<close>

definition generated_text :: "world \<Rightarrow> pystr" where
  "generated_text w = py ''Generated at '' @ now_isoformat w @ py '' by external Python script''"

text \<open>
  \<open>content["text"]\<close>. The script only reads it from the \<open>dict\<close> it has just built,
  where the key is present and holds a string.
\<close>

definition text_of :: "(pystr \<times> pyval) list \<Rightarrow> pystr" where
  "text_of d = (case map_of d (py ''text'') of Some (PyStr t) \<Rightarrow> t | _ \<Rightarrow> [])"

text \<open>
  Lines 7 to 20: the \<open>content\<close> dictionary when line 23 is reached.
\<close>

definition build_content :: "floats \<Rightarrow> world \<Rightarrow> py_error + (pystr \<times> pyval) list" where
  "build_content F w =
     (case load_globals w of
        Inl e \<Rightarrow> Inl e
      | Inr globals_data \<Rightarrow>
          (let content0 = [(py ''type'', PyStr (py ''text'')),
                           (py ''text'', PyStr (generated_text w))]
           in if truthy F globals_data
                then Inr (AList.update (py ''text'')
                       (PyStr (text_of content0 @ py ''\<newline>Workflow globals: ''
                               @ json_dumps F 2 globals_data)) content0)
              else Inr content0))"

text \<open>
  The process: what it has written to standard output and its exit status. An
  exception that nothing catches ends the script with status 1, before the only \<open>print\<close>.
\<close>

record process =
  stdout_text :: pystr
  exit_code :: nat

definition generate_content :: "floats \<Rightarrow> world \<Rightarrow> process" where
  "generate_content F w =
     (case build_content F w of
        Inl e \<Rightarrow> \<lparr>stdout_text = [], exit_code = 1\<rparr>
      | Inr d \<Rightarrow>
          \<lparr>stdout_text = json_dumps F 2 (PyDict d) @ [10], exit_code = 0\<rparr>)"

subsection \<open>Notions the properties are stated with\<close>

text \<open>
  The start of the section that line 20 appends.
\<close>

definition globals_marker :: pystr where
  "globals_marker = py ''\<newline>Workflow globals: ''"

text \<open>
  A text all of whose elements are Unicode code points, as every Python \<open>str\<close> is.
\<close>

definition code_points :: "pystr \<Rightarrow> bool" where
  "code_points s = list_all (\<lambda>c. c < 0x110000) s"

text \<open>
  What decoding gives back for an encoded string: the encoder writes a surrogate as
  \<open>\uXXXX\<close>, so a high surrogate directly followed by a low one comes back as one code
  point. A text without surrogates comes back as it is.
\<close>

definition is_high :: "nat \<Rightarrow> bool" where "is_high u = (0xD800 \<le> u \<and> u \<le> 0xDBFF)"

definition is_low :: "nat \<Rightarrow> bool" where "is_low u = (0xDC00 \<le> u \<and> u \<le> 0xDFFF)"

fun join_surrogates :: "pystr \<Rightarrow> pystr" where
  "join_surrogates (h # l # cs) =
     (if is_high h \<and> is_low l
        then (0x10000 + ((h - 0xD800) * 1024 + (l - 0xDC00))) # join_surrogates cs
      else h # join_surrogates (l # cs))"
| "join_surrogates cs = cs"

subsection \<open>Sample runs\<close>

text \<open>
  A float library for the closed examples (none of them holds a float): it echoes the
  ASCII part of the number text.
\<close>

definition echo_floats :: floats where
  "echo_floats = \<lparr>float_repr = filter (\<lambda>c. c < 128), float_bool = (\<lambda>x. True)\<rparr>"

definition alice_world :: world where
  "alice_world = \<lparr>environ = [py ''DIVE_GLOBALS'' \<mapsto> py ''{\"user\":\"Alice\"}''], argv = [], stdin = [],
     now_isoformat = py ''2025-01-02T03:04:05.678901''\<rparr>"

definition noisy_alice_world :: world where
  "noisy_alice_world =
     \<lparr>environ = [py ''DIVE_GLOBALS'' \<mapsto> py ''{\"user\":\"Alice\"}'', py ''HOME'' \<mapsto> py ''/root''],
      argv = [py ''generate_content.py'', py ''--verbose''], stdin = py ''{\"user\":\"Bob\"}'',
      now_isoformat = py ''2025-01-02T03:04:05.678901''\<rparr>"

definition empty_world :: world where
  "empty_world = \<lparr>environ = Map.empty, argv = [], stdin = [],
     now_isoformat = py ''2025-01-02T03:04:05.678901''\<rparr>"

definition braces_world :: world where
  "braces_world = \<lparr>environ = [py ''DIVE_GLOBALS'' \<mapsto> py ''{}'', py ''HOME'' \<mapsto> py ''/root''],
     argv = [py ''generate_content.py''], stdin = py ''ignored'',
     now_isoformat = py ''2025-01-02T03:04:05.678901''\<rparr>"

section \<open>Theorems about scripts/openai_example.py\<close>

lemma openai_example_after_tool_call:
  assumes "create first_request = Inr completion" and "choices completion = ch # rest"
    and "tool_calls (message ch) = Some (tc # calls)"
  shows "messages (openai_example create) =
           initial_messages @ [Obj (message ch), tool_message tc]"
    and "requests (openai_example create) =
           [first_request,
            second_request (initial_messages @ [Obj (message ch), tool_message tc])]"
  using assms
  by (simp_all add: openai_example_def first_tool_call_def Let_def
      split: sum.splits list.splits)

lemma openai_example_messages_cases:
  "messages (openai_example create) = initial_messages \<or>
   (\<exists>completion ch rest tc calls.
      create first_request = Inr completion \<and> choices completion = ch # rest \<and>
      tool_calls (message ch) = Some (tc # calls) \<and>
      messages (openai_example create) =
        initial_messages @ [Obj (message ch), tool_message tc])"
  by (auto simp add: openai_example_def first_tool_call_def Let_def
      split: sum.splits list.splits option.splits)

lemma tool_messages_after_tool_call:
  "tool_messages (initial_messages @ [Obj m, tool_message tc]) = [tool_message tc]"
  by (simp add: tool_messages_def is_tool_message_def initial_messages_def tool_message_def)

lemma appended_after_tool_call:
  assumes "messages r = initial_messages @ ms"
  shows "appended r = ms"
  using assms by (simp add: appended_def)

text \<open>
  C7. Every tool definition of the script with \<open>strict\<close> set to \<open>True\<close> has
  \<open>additionalProperties\<close> set to \<open>False\<close> in its parameter schema and lists every
  declared property under \<open>required\<close>. The script defines one tool, GoogleSearch; the
  instance after the theorem shows that it is strict and satisfies both.
\<close>

theorem strict_tools_closed_schema:
  "t \<in> set tools \<Longrightarrow> is_strict t \<Longrightarrow> forbids_additional t \<and> requires_all_properties t"
  by (simp add: tools_def GoogleSearch_def is_strict_def forbids_additional_def
      requires_all_properties_def parameters_of_def declared_properties_def
      required_properties_def)

theorem strict_tools_closed_schema_witness:
  "GoogleSearch \<in> set tools \<and> is_strict GoogleSearch \<and> forbids_additional GoogleSearch
   \<and> requires_all_properties GoogleSearch
   \<and> declared_properties GoogleSearch = [py ''query'']"
proof -
  have a: "GoogleSearch \<in> set tools" by (simp add: tools_def)
  have b: "is_strict GoogleSearch" by (simp add: GoogleSearch_def is_strict_def)
  have c: "declared_properties GoogleSearch = [py ''query'']"
    by (simp add: GoogleSearch_def declared_properties_def parameters_of_def)
  from strict_tools_closed_schema [OF a b] a b c show ?thesis by simp
qed

lemma openai_example_requests_cases:
  "requests (openai_example create) = [first_request] \<or>
   requests (openai_example create) =
     [first_request, second_request (messages (openai_example create))]"
  by (simp add: openai_example_def Let_def split: sum.splits list.splits)

lemma openai_example_prefix:
  "prefix initial_messages (messages (openai_example create))"
  using openai_example_messages_cases [of create] by auto

text \<open>
  C1, as stated, fails. The claim: the number of tool-role messages appended equals the
  number of \<open>tool_calls\<close> of the preceding assistant message, and each \<open>tool_call_id\<close>
  appears in exactly one of them. The script answers \<open>tool_calls[0]\<close> only: when the
  assistant message carries two tool calls, one tool-role message is appended and the id
  of the second call appears in none.
\<close>

theorem one_tool_message_counterexample:
  "appended (openai_example api_parallel) =
     [Obj \<lparr>content = None, tool_calls = Some [call ''call_1'', call ''call_2'']\<rparr>,
      tool_message (call ''call_1'')]
   \<and> length (tool_messages (appended (openai_example api_parallel))) = 1
   \<and> length [call ''call_1'', call ''call_2''] = 2
   \<and> answers_to (tc_id (call ''call_2'')) (appended (openai_example api_parallel)) = []"
  by (simp add: openai_example_def api_parallel_def reply_def first_tool_call_def
      appended_def tool_messages_def is_tool_message_def answers_to_def tool_message_def
      call_def Let_def)

text \<open>
  C1, amended. When the response to the first request carries tool calls, the script
  appends the assistant message and exactly one tool-role message, which carries the id of
  the first tool call, and that is the log the next model invocation is sent. The number
  of tool-role messages equals the number of tool calls exactly when the assistant
  message holds a single tool call.
\<close>

theorem one_tool_message_for_first_call:
  assumes "create first_request = Inr completion" and "choices completion = ch # rest"
    and "tool_calls (message ch) = Some (tc # calls)"
  shows "appended (openai_example create) = [Obj (message ch), tool_message tc]
         \<and> tool_messages (appended (openai_example create)) = [tool_message tc]
         \<and> answers_to (tc_id tc) (appended (openai_example create)) = [tool_message tc]
         \<and> (length (tool_messages (appended (openai_example create))) = length (tc # calls))
             = (calls = [])
         \<and> req_messages (requests (openai_example create) ! 1)
             = initial_messages @ appended (openai_example create)"
proof -
  have a: "appended (openai_example create) = [Obj (message ch), tool_message tc]"
    using openai_example_after_tool_call(1) [where create = create, OF assms]
    by (rule appended_after_tool_call)
  have t: "tool_messages [Obj (message ch), tool_message tc] = [tool_message tc]"
    by (simp add: tool_messages_def is_tool_message_def tool_message_def)
  have r: "req_messages (requests (openai_example create) ! 1)
             = initial_messages @ [Obj (message ch), tool_message tc]"
    using openai_example_after_tool_call(2) [where create = create, OF assms]
    by (simp add: second_request_def)
  have n: "answers_to (tc_id tc) [Obj (message ch), tool_message tc] = [tool_message tc]"
    unfolding answers_to_def t by (simp add: tool_message_def)
  show ?thesis
    unfolding a n t using r by simp
qed

theorem one_tool_message_for_first_call_witness:
  "api_scenario_a first_request = reply None (Some [call ''call_1''])
   \<and> appended (openai_example api_scenario_a)
        = [Obj \<lparr>content = None, tool_calls = Some [call ''call_1'']\<rparr>,
           tool_message (call ''call_1'')]
   \<and> tool_messages (appended (openai_example api_scenario_a))
        = [tool_message (call ''call_1'')]
   \<and> answers_to (tc_id (call ''call_1'')) (appended (openai_example api_scenario_a))
        = [tool_message (call ''call_1'')]
   \<and> length (tool_messages (appended (openai_example api_scenario_a)))
        = length [call ''call_1'']"
proof -
  let ?m = "\<lparr>content = None, tool_calls = Some [call ''call_1'']\<rparr>"
  have a: "api_scenario_a first_request = Inr \<lparr>choices = [\<lparr>message = ?m\<rparr>]\<rparr>"
    by (simp add: api_scenario_a_def first_request_def reply_def)
  have b: "choices \<lparr>choices = [\<lparr>message = ?m\<rparr>]\<rparr> = \<lparr>message = ?m\<rparr> # []"
    by simp
  have c: "tool_calls (message \<lparr>message = ?m\<rparr>) = Some (call ''call_1'' # [])"
    by simp
  have d: "api_scenario_a first_request = reply None (Some [call ''call_1''])"
    using a by (simp add: reply_def)
  have e: "message \<lparr>message = ?m\<rparr> = ?m"
    by simp
  note th = one_tool_message_for_first_call [where create = api_scenario_a, OF a b c]
  from th have "appended (openai_example api_scenario_a)
        = [Obj ?m, tool_message (call ''call_1'')]"
    unfolding e by (rule conjunct1)
  moreover from th have "tool_messages (appended (openai_example api_scenario_a))
        = [tool_message (call ''call_1'')]"
    by (rule conjunct1 [OF conjunct2])
  moreover from th have "answers_to (tc_id (call ''call_1'')) (appended (openai_example api_scenario_a))
        = [tool_message (call ''call_1'')]"
    by (rule conjunct1 [OF conjunct2 [OF conjunct2]])
  ultimately show ?thesis using d by simp
qed

text \<open>
  C2, as stated, fails. The claim: every model invocation, the one after the tool result
  included, passes the message log and the tool schemas. The second
  \<open>client.chat.completions.create\<close> (lines 51 to 54) is given \<open>model\<close> and \<open>messages\<close>
  only.
\<close>

theorem second_request_counterexample:
  "length (requests (openai_example api_scenario_a)) = 2
   \<and> req_tools (requests (openai_example api_scenario_a) ! 0) = Some tools
   \<and> req_tools (requests (openai_example api_scenario_a) ! 1) = None"
  by (simp add: openai_example_def api_scenario_a_def reply_def first_tool_call_def
      first_request_def second_request_def Let_def)

lemma openai_example_without_tool_call:
  assumes "\<not> requests_tools (create first_request)"
  shows "requests (openai_example create) = [first_request]"
    and "messages (openai_example create) = initial_messages"
  using assms
  by (auto simp add: openai_example_def first_tool_call_def requests_tools_def Let_def
      split: sum.splits list.splits option.splits)

text \<open>
  C2, amended. The first model invocation passes the message log (the user message),
  the tool schemas and \<open>tool_choice\<close> \<open>required\<close>. When its response carries a tool
  call, the script sends exactly one more request, after the assistant message and the
  tool message have been appended: it passes that full log (user, assistant and tool
  message) and neither tool schemas nor a tool choice. When the response carries no tool
  call, the first request is the only one.
\<close>

theorem requests_carry_the_log:
  "requests (openai_example create) ! 0 =
     \<lparr>req_model = py ''gpt-4o'', req_messages = initial_messages,
      req_tools = Some tools, req_tool_choice = Some (py ''required'')\<rparr>
   \<and> (create first_request = Inr completion \<and> choices completion = ch # rest
        \<and> tool_calls (message ch) = Some (tc # calls) \<longrightarrow>
      messages (openai_example create) = initial_messages @ [Obj (message ch), tool_message tc]
      \<and> requests (openai_example create) =
          [\<lparr>req_model = py ''gpt-4o'', req_messages = initial_messages,
            req_tools = Some tools, req_tool_choice = Some (py ''required'')\<rparr>,
           \<lparr>req_model = py ''gpt-4o'',
            req_messages = initial_messages @ [Obj (message ch), tool_message tc],
            req_tools = None, req_tool_choice = None\<rparr>])
   \<and> (\<not> requests_tools (create first_request) \<longrightarrow>
      requests (openai_example create) =
          [\<lparr>req_model = py ''gpt-4o'', req_messages = initial_messages,
            req_tools = Some tools, req_tool_choice = Some (py ''required'')\<rparr>])"
proof -
  have 1: "requests (openai_example create) ! 0 = first_request"
    using openai_example_requests_cases [of create] by auto
  have 2: "messages (openai_example create) = initial_messages @ [Obj (message ch), tool_message tc]
      \<and> requests (openai_example create) =
          [first_request, second_request (initial_messages @ [Obj (message ch), tool_message tc])]"
    if "create first_request = Inr completion" "choices completion = ch # rest"
       "tool_calls (message ch) = Some (tc # calls)"
    using openai_example_after_tool_call [where create = create, OF that] by simp
  have 3: "requests (openai_example create) = [first_request]"
    if "\<not> requests_tools (create first_request)"
    using that by (rule openai_example_without_tool_call(1))
  from 1 2 3 show ?thesis
    unfolding first_request_def second_request_def by blast
qed

theorem requests_carry_the_log_witness:
  "api_scenario_a first_request = reply None (Some [call ''call_1''])
   \<and> requests (openai_example api_scenario_a) =
        [\<lparr>req_model = py ''gpt-4o'', req_messages = initial_messages,
          req_tools = Some tools, req_tool_choice = Some (py ''required'')\<rparr>,
         \<lparr>req_model = py ''gpt-4o'',
          req_messages = initial_messages
            @ [Obj \<lparr>content = None, tool_calls = Some [call ''call_1'']\<rparr>,
               tool_message (call ''call_1'')],
          req_tools = None, req_tool_choice = None\<rparr>]
   \<and> messages (openai_example api_scenario_a) =
        initial_messages
          @ [Obj \<lparr>content = None, tool_calls = Some [call ''call_1'']\<rparr>,
             tool_message (call ''call_1'')]
   \<and> length (messages (openai_example api_scenario_a)) = 3
   \<and> \<not> requests_tools (api_no_tools first_request)
   \<and> requests (openai_example api_no_tools) =
        [\<lparr>req_model = py ''gpt-4o'', req_messages = initial_messages,
          req_tools = Some tools, req_tool_choice = Some (py ''required'')\<rparr>]"
proof -
  let ?m = "\<lparr>content = None, tool_calls = Some [call ''call_1'']\<rparr>"
  let ?c = "\<lparr>choices = [\<lparr>message = ?m\<rparr>]\<rparr>"
  have a: "api_scenario_a first_request = Inr ?c"
    by (simp add: api_scenario_a_def first_request_def reply_def)
  have h: "api_scenario_a first_request = Inr ?c \<and> choices ?c = \<lparr>message = ?m\<rparr> # []
        \<and> tool_calls (message \<lparr>message = ?m\<rparr>) = Some (call ''call_1'' # [])"
    using a by simp
  have d: "api_scenario_a first_request = reply None (Some [call ''call_1''])"
    using a by (simp add: reply_def)
  have e: "message \<lparr>message = ?m\<rparr> = ?m"
    by simp
  have n: "\<not> requests_tools (api_no_tools first_request)"
    by (simp add: requests_tools_def api_no_tools_def reply_def)
  note s = requests_carry_the_log [where create = api_scenario_a and completion = ?c
      and ch = "\<lparr>message = ?m\<rparr>" and rest = "[]" and tc = "call ''call_1''" and calls = "[]"]
  note t = requests_carry_the_log [where create = api_no_tools]
  from s h have 1: "messages (openai_example api_scenario_a) =
        initial_messages @ [Obj (message \<lparr>message = ?m\<rparr>), tool_message (call ''call_1'')]
      \<and> requests (openai_example api_scenario_a) =
          [\<lparr>req_model = py ''gpt-4o'', req_messages = initial_messages,
            req_tools = Some tools, req_tool_choice = Some (py ''required'')\<rparr>,
           \<lparr>req_model = py ''gpt-4o'',
            req_messages = initial_messages @ [Obj (message \<lparr>message = ?m\<rparr>), tool_message (call ''call_1'')],
            req_tools = None, req_tool_choice = None\<rparr>]"
    by blast
  from t n have 2: "requests (openai_example api_no_tools) =
        [\<lparr>req_model = py ''gpt-4o'', req_messages = initial_messages,
          req_tools = Some tools, req_tool_choice = Some (py ''required'')\<rparr>]"
    by blast
  have 3: "length (initial_messages @ [Obj ?m, tool_message (call ''call_1'')]) = 3"
    by (simp add: initial_messages_def)
  from 1 2 3 d n show ?thesis
    unfolding e by simp
qed

text \<open>
  C5. Every tool-role message the script appends to the log is the \<open>dict\<close>
  \<open>{role: tool, tool_call_id: id, content: string}\<close>, with exactly these three keys,
  where \<open>id\<close> is the id of the (first) tool call of the assistant message the model
  returned.
\<close>

theorem tool_message_wire_shape:
  assumes "m \<in> set (appended (openai_example create))" and "is_tool_message m"
  shows "\<exists>completion ch rest tc calls.
           create first_request = Inr completion \<and> choices completion = ch # rest \<and>
           tool_calls (message ch) = Some (tc # calls) \<and>
           m = Dict [(py ''role'', PyStr (py ''tool'')),
                     (py ''tool_call_id'', PyStr (tc_id tc)),
                     (py ''content'', PyStr (py ''9,033 feet''))]"
proof -
  from openai_example_messages_cases [of create]
  show ?thesis
  proof
    assume "messages (openai_example create) = initial_messages"
    then have "appended (openai_example create) = []" by (simp add: appended_def)
    with assms(1) show ?thesis by simp
  next
    assume "\<exists>completion ch rest tc calls.
      create first_request = Inr completion \<and> choices completion = ch # rest \<and>
      tool_calls (message ch) = Some (tc # calls) \<and>
      messages (openai_example create) =
        initial_messages @ [Obj (message ch), tool_message tc]"
    then obtain completion ch rest tc calls where
      h: "create first_request = Inr completion" "choices completion = ch # rest"
         "tool_calls (message ch) = Some (tc # calls)"
      and ms: "messages (openai_example create) =
        initial_messages @ [Obj (message ch), tool_message tc]"
      by blast
    from ms have "appended (openai_example create) = [Obj (message ch), tool_message tc]"
      by (rule appended_after_tool_call)
    with assms have "m = tool_message tc"
      by (auto simp add: is_tool_message_def)
    with h show ?thesis by (auto simp add: tool_message_def)
  qed
qed

theorem tool_message_wire_shape_witness:
  "tool_message (call ''call_1'') \<in> set (appended (openai_example api_scenario_a))
   \<and> is_tool_message (tool_message (call ''call_1''))
   \<and> keys_of (tool_message (call ''call_1'')) = [py ''role'', py ''tool_call_id'', py ''content'']
   \<and> (\<exists>completion ch rest tc calls.
           api_scenario_a first_request = Inr completion \<and> choices completion = ch # rest \<and>
           tool_calls (message ch) = Some (tc # calls) \<and>
           tool_message (call ''call_1'') =
             Dict [(py ''role'', PyStr (py ''tool'')),
                   (py ''tool_call_id'', PyStr (tc_id tc)),
                   (py ''content'', PyStr (py ''9,033 feet''))])"
proof -
  have a: "tool_message (call ''call_1'') \<in> set (appended (openai_example api_scenario_a))"
    by (simp add: openai_example_def api_scenario_a_def reply_def first_tool_call_def
      first_request_def appended_def initial_messages_def Let_def)
  have b: "is_tool_message (tool_message (call ''call_1''))"
    by (simp add: is_tool_message_def tool_message_def)
  have c: "keys_of (tool_message (call ''call_1'')) = [py ''role'', py ''tool_call_id'', py ''content'']"
    by (simp add: tool_message_def)
  from tool_message_wire_shape [where create = api_scenario_a, OF a b] a b c show ?thesis by blast
qed

text \<open>
  C8, as stated, fails. The claim: when the conversation reaches the limit of model
  invocations without a response free of tool calls, the driver raises
  \<open>LoopLimitExceeded\<close>. The script has no loop, no \<open>max_turns\<close> and no such error: it
  stops after its second invocation. With a model that asks for a tool in both responses
  the run makes its two invocations and ends without any exception.
\<close>

theorem no_turn_limit_counterexample:
  "requests_tools (api_always_tools first_request)
   \<and> length (requests (openai_example api_always_tools)) = 2
   \<and> requests_tools (api_always_tools (requests (openai_example api_always_tools) ! 1))
   \<and> raised (openai_example api_always_tools) = None"
  by (simp add: openai_example_def api_always_tools_def reply_def first_tool_call_def
      requests_tools_def Let_def)

text \<open>
  C8, amended. The script makes at most two model invocations and never removes a
  message from the log it started with. When the first response carries a tool call and
  the second request is answered, the run ends without an exception whatever the second
  response holds (tool calls included), with the log being the user message, the
  assistant message and the tool message, as sent in the second request.
\<close>

theorem two_invocations_no_limit:
  "length (requests (openai_example create)) \<le> 2
   \<and> prefix initial_messages (messages (openai_example create))
   \<and> (create first_request = Inr c1 \<and> choices c1 = ch1 # rest1
        \<and> tool_calls (message ch1) = Some (tc # calls)
        \<and> create (second_request (initial_messages @ [Obj (message ch1), tool_message tc]))
             = Inr c2
        \<and> choices c2 = ch2 # rest2
      \<longrightarrow> raised (openai_example create) = None
          \<and> length (requests (openai_example create)) = 2
          \<and> messages (openai_example create)
               = initial_messages @ [Obj (message ch1), tool_message tc]
          \<and> stdout (openai_example create)
               = [PrintMessage (message ch1), PrintToolCalls (tool_calls (message ch1)),
                  PrintChoice ch2])"
proof -
  have a: "length (requests (openai_example create)) \<le> 2"
    using openai_example_requests_cases [of create] by auto
  have b: "raised (openai_example create) = None
          \<and> length (requests (openai_example create)) = 2
          \<and> messages (openai_example create)
               = initial_messages @ [Obj (message ch1), tool_message tc]
          \<and> stdout (openai_example create)
               = [PrintMessage (message ch1), PrintToolCalls (tool_calls (message ch1)),
                  PrintChoice ch2]"
    if "create first_request = Inr c1" "choices c1 = ch1 # rest1"
       "tool_calls (message ch1) = Some (tc # calls)"
       "create (second_request (initial_messages @ [Obj (message ch1), tool_message tc]))
             = Inr c2"
       "choices c2 = ch2 # rest2"
    using that by (simp add: openai_example_def first_tool_call_def Let_def)
  from a b openai_example_prefix [of create] show ?thesis by blast
qed

theorem two_invocations_no_limit_witness:
  "requests_tools (api_always_tools first_request)
   \<and> requests_tools (api_always_tools
        (second_request (initial_messages @ [Obj \<lparr>content = None, tool_calls = Some [call ''call_1'']\<rparr>,
           tool_message (call ''call_1'')])))
   \<and> raised (openai_example api_always_tools) = None
   \<and> length (requests (openai_example api_always_tools)) = 2
   \<and> messages (openai_example api_always_tools)
        = initial_messages @ [Obj \<lparr>content = None, tool_calls = Some [call ''call_1'']\<rparr>,
           tool_message (call ''call_1'')]"
proof -
  let ?m = "\<lparr>content = None, tool_calls = Some [call ''call_1'']\<rparr>"
  let ?c = "\<lparr>choices = [\<lparr>message = ?m\<rparr>]\<rparr>"
  have a: "api_always_tools r = Inr ?c" for r
    by (simp add: api_always_tools_def reply_def)
  have h: "api_always_tools first_request = Inr ?c \<and> choices ?c = \<lparr>message = ?m\<rparr> # []
        \<and> tool_calls (message \<lparr>message = ?m\<rparr>) = Some (call ''call_1'' # [])
        \<and> api_always_tools (second_request (initial_messages @ [Obj (message \<lparr>message = ?m\<rparr>), tool_message (call ''call_1'')]))
             = Inr ?c
        \<and> choices ?c = \<lparr>message = ?m\<rparr> # []"
    by (simp add: a)
  have t: "requests_tools (api_always_tools r)" for r
    by (simp add: a requests_tools_def)
  note th = two_invocations_no_limit [where create = api_always_tools and ?c1.0 = ?c
      and ?ch1.0 = "\<lparr>message = ?m\<rparr>" and ?rest1.0 = "[]" and tc = "call ''call_1''" and calls = "[]"
      and ?c2.0 = ?c and ?ch2.0 = "\<lparr>message = ?m\<rparr>" and ?rest2.0 = "[]"]
  from th h have "raised (openai_example api_always_tools) = None
          \<and> length (requests (openai_example api_always_tools)) = 2
          \<and> messages (openai_example api_always_tools)
               = initial_messages @ [Obj (message \<lparr>message = ?m\<rparr>), tool_message (call ''call_1'')]
          \<and> stdout (openai_example api_always_tools)
               = [PrintMessage (message \<lparr>message = ?m\<rparr>), PrintToolCalls (tool_calls (message \<lparr>message = ?m\<rparr>)),
                  PrintChoice \<lparr>message = ?m\<rparr>]"
    by blast
  with t show ?thesis by simp
qed

text \<open>
  C10. The script reads \<open>choice.message.tool_calls[0]\<close> with no guard. The access has a
  result exactly when the first response carries at least one tool call (then the script
  goes on to its second request); for a response whose \<open>tool_calls\<close> is \<open>None\<close> it raises
  \<open>TypeError\<close>, for an empty list \<open>IndexError\<close>, and the run stops there. The request
  the response answers is always sent with \<open>tool_choice\<close> \<open>required\<close>.
\<close>

theorem first_tool_call_precondition:
  assumes "create first_request = Inr completion" and "choices completion = ch # rest"
  shows "req_tool_choice (hd (requests (openai_example create))) = Some (py ''required'')
    \<and> (\<forall>tc calls. tool_calls (message ch) = Some (tc # calls) \<longrightarrow>
          first_tool_call (message ch) = Inr tc
          \<and> length (requests (openai_example create)) = 2)
    \<and> (tool_calls (message ch) = None \<longrightarrow>
          first_tool_call (message ch) = Inl TypeError
          \<and> raised (openai_example create) = Some TypeError
          \<and> requests (openai_example create) = [first_request]
          \<and> messages (openai_example create) = initial_messages)
    \<and> (tool_calls (message ch) = Some [] \<longrightarrow>
          first_tool_call (message ch) = Inl IndexError
          \<and> raised (openai_example create) = Some IndexError
          \<and> requests (openai_example create) = [first_request]
          \<and> messages (openai_example create) = initial_messages)"
proof -
  have 1: "req_tool_choice (hd (requests (openai_example create))) = Some (py ''required'')"
    using openai_example_requests_cases [of create] by (auto simp add: first_request_def)
  have 2: "first_tool_call (message ch) = Inr tc
          \<and> length (requests (openai_example create)) = 2"
    if "tool_calls (message ch) = Some (tc # calls)" for tc calls
    using openai_example_after_tool_call(2) [where create = create, OF assms that] that
    by (simp add: first_tool_call_def)
  have 3: "first_tool_call (message ch) = Inl TypeError
          \<and> raised (openai_example create) = Some TypeError
          \<and> requests (openai_example create) = [first_request]
          \<and> messages (openai_example create) = initial_messages"
    if "tool_calls (message ch) = None"
    using assms that by (simp add: openai_example_def first_tool_call_def)
  have 4: "first_tool_call (message ch) = Inl IndexError
          \<and> raised (openai_example create) = Some IndexError
          \<and> requests (openai_example create) = [first_request]
          \<and> messages (openai_example create) = initial_messages"
    if "tool_calls (message ch) = Some []"
    using assms that by (simp add: openai_example_def first_tool_call_def)
  from 1 2 3 4 show ?thesis by blast
qed

theorem first_tool_call_precondition_witness:
  "first_tool_call \<lparr>content = None, tool_calls = Some [call ''call_1'']\<rparr> = Inr (call ''call_1'')
   \<and> length (requests (openai_example api_scenario_a)) = 2
   \<and> req_tool_choice (hd (requests (openai_example api_scenario_a))) = Some (py ''required'')
   \<and> first_tool_call \<lparr>content = Some (py ''It is tall.''), tool_calls = None\<rparr> = Inl TypeError
   \<and> raised (openai_example api_no_tools) = Some TypeError
   \<and> requests (openai_example api_no_tools) = [first_request]
   \<and> first_tool_call \<lparr>content = Some (py ''It is tall.''), tool_calls = Some []\<rparr> = Inl IndexError
   \<and> raised (openai_example api_empty_calls) = Some IndexError
   \<and> requests (openai_example api_empty_calls) = [first_request]"
proof -
  let ?a = "\<lparr>content = None, tool_calls = Some [call ''call_1'']\<rparr>"
  let ?n = "\<lparr>content = Some (py ''It is tall.''), tool_calls = None\<rparr>"
  let ?e = "\<lparr>content = Some (py ''It is tall.''), tool_calls = Some []\<rparr>"
  have a: "api_scenario_a first_request = Inr \<lparr>choices = [\<lparr>message = ?a\<rparr>]\<rparr>"
    by (simp add: api_scenario_a_def first_request_def reply_def)
  have n: "api_no_tools first_request = Inr \<lparr>choices = [\<lparr>message = ?n\<rparr>]\<rparr>"
    by (simp add: api_no_tools_def reply_def)
  have e: "api_empty_calls first_request = Inr \<lparr>choices = [\<lparr>message = ?e\<rparr>]\<rparr>"
    by (simp add: api_empty_calls_def reply_def)
  have c: "choices \<lparr>choices = [\<lparr>message = m\<rparr>]\<rparr> = \<lparr>message = m\<rparr> # []" for m :: chat_message
    by simp
  from first_tool_call_precondition [where create = api_scenario_a, OF a c]
  have "first_tool_call ?a = Inr (call ''call_1'')
      \<and> length (requests (openai_example api_scenario_a)) = 2
      \<and> req_tool_choice (hd (requests (openai_example api_scenario_a))) = Some (py ''required'')"
    by simp
  moreover
  from first_tool_call_precondition [where create = api_no_tools, OF n c]
  have "first_tool_call ?n = Inl TypeError
      \<and> raised (openai_example api_no_tools) = Some TypeError
      \<and> requests (openai_example api_no_tools) = [first_request]"
    by simp
  moreover
  from first_tool_call_precondition [where create = api_empty_calls, OF e c]
  have "first_tool_call ?e = Inl IndexError
      \<and> raised (openai_example api_empty_calls) = Some IndexError
      \<and> requests (openai_example api_empty_calls) = [first_request]"
    by simp
  ultimately show ?thesis by simp
qed

section \<open>Theorems about the json module\<close>

lemmas json_eval = json_loads_def scan_once.simps parse_array.simps parse_object.simps skip_ws_def is_ws_def
  push_def decode_uXXXX_def hex_value_def BACKSLASH_def dict_of_pairs_def match_number_def match_integer_def
  match_fraction_def match_exponent_def is_digit_def nat_of_digits_def

lemma replicate_two: "replicate 2 x = [x, x]"
  by (simp add: numeral_2_eq_2)

lemmas dumps_eval = replicate_two json_dumps_def encode_basestring_ascii_def escape_char_def newline_indent_def
  u_escape_def hex_digit_def int_repr_def

subsection \<open>The decoder always uses up text\<close>

lemma match_integer_shorter:
  "match_integer s = Some (ds, r) \<Longrightarrow> length r < length s"
  using length_dropWhile_le [of is_digit "tl s"]
  by (auto simp add: match_integer_def split: list.splits if_splits)

lemma match_fraction_shorter:
  assumes m: "match_fraction s = (f, r)"
  shows "length r \<le> length s"
proof (cases s)
  case Nil
  with m show ?thesis by (simp add: match_fraction_def)
next
  case (Cons a t)
  show ?thesis
  proof (cases t)
    case Nil
    with Cons m show ?thesis by (auto simp add: match_fraction_def)
  next
    case c2: (Cons d u)
    with Cons m length_dropWhile_le [of is_digit u] show ?thesis
      by (auto simp add: match_fraction_def split: if_splits)
  qed
qed

lemma match_exponent_shorter:
  assumes m: "match_exponent s = (e, r)"
  shows "length r \<le> length s"
proof (cases s)
  case Nil
  with m show ?thesis by (simp add: match_exponent_def)
next
  case (Cons a t)
  show ?thesis
  proof (cases t)
    case Nil
    with Cons m show ?thesis by (auto simp add: match_exponent_def split: if_splits)
  next
    case c2: (Cons d u)
    with Cons m length_dropWhile_le [of is_digit u] length_dropWhile_le [of is_digit t]
    show ?thesis
      by (auto simp add: match_exponent_def Let_def split: if_splits)
  qed
qed

lemma match_number_shorter:
  assumes "match_number s = Some (v, r)"
  shows "length r < length s"
proof -
  obtain sign s1 where a: "(case s of c # r \<Rightarrow> if c = ord CHR ''-'' then ([c], r) else ([], s)
                        | [] \<Rightarrow> ([], s)) = (sign, s1)"
    by (cases "(case s of c # r \<Rightarrow> if c = ord CHR ''-'' then ([c], r) else ([], s)
                        | [] \<Rightarrow> ([], s))") blast
  then have l1: "length s1 \<le> length s"
    by (auto split: list.splits if_splits)
  from assms a obtain digits s2 where b: "match_integer s1 = Some (digits, s2)"
    by (auto simp add: match_number_def split: option.splits)
  obtain frac s3 where c: "match_fraction s2 = (frac, s3)"
    by (cases "match_fraction s2") blast
  obtain exp s4 where d: "match_exponent s3 = (exp, s4)"
    by (cases "match_exponent s3") blast
  from assms a b c d have "r = s4"
    by (auto simp add: match_number_def split: if_splits)
  with l1 match_integer_shorter [OF b] match_fraction_shorter [OF c] match_exponent_shorter [OF d]
  show ?thesis by simp
qed

lemma push_Inr: "push x r = Inr (ys, rest) \<Longrightarrow> \<exists>xs. r = Inr (xs, rest) \<and> ys = x # xs"
  by (auto simp add: push_def split: sum.splits)

text \<open>
  A value that \<open>scan_once\<close> reads leaves a shorter text, and so do the elements of an
  array and the members of an object: the length tests in \<open>parse_array\<close> and
  \<open>parse_object\<close> always succeed.
\<close>

lemma scan_shorter:
  "(\<forall>v r. scan_once s = Inr (v, r) \<longrightarrow> length r < length s)"
  "(\<forall>vs r. parse_array s1 = Inr (vs, r) \<longrightarrow> length r < length s1)"
  "(\<forall>kvs r. parse_object s2 = Inr (kvs, r) \<longrightarrow> length r < length s2)"
proof (induction s and s1 and s2 rule: scan_once_parse_array_parse_object.induct)
  case (1 s)
  show ?case
  proof (intro allI impI)
    fix v r
    assume h: "scan_once s = Inr (v, r)"
    show "length r < length s"
    proof (cases s)
      case Nil
      with h show ?thesis by (simp add: scan_once.simps)
    next
      case (Cons c cs)
      consider (str) "c = 34" | (obj) "c = 123" | (arr) "c = 91" | (other) "c \<noteq> 34" "c \<noteq> 123" "c \<noteq> 91"
        by blast
      then show ?thesis
      proof cases
        case str
        with h Cons scanstring_shorter [of cs] show ?thesis
          by (auto simp add: scan_once.simps split: sum.splits)
      next
        case obj
        show ?thesis
        proof (cases "skip_ws cs")
          case Nil
          with h Cons obj show ?thesis by (simp add: scan_once.simps)
        next
          case sk: (Cons c' rest)
          show ?thesis
          proof (cases "c' = 125")
            case True
            with h Cons obj sk skip_ws_Cons_length [OF sk] show ?thesis
              by (auto simp add: scan_once.simps)
          next
            case False
            with h Cons obj sk obtain pairs where
              p: "parse_object (c' # rest) = Inr (pairs, r)"
              by (auto simp add: scan_once.simps split: sum.splits)
            from "1.IH"(1) [OF Cons _ _ sk] obj False p
            have "length r < length (c' # rest)" by simp
            with skip_ws_length [of cs] sk Cons show ?thesis by simp
          qed
        qed
      next
        case arr
        show ?thesis
        proof (cases "skip_ws cs")
          case Nil
          with h Cons arr show ?thesis by (simp add: scan_once.simps)
        next
          case sk: (Cons c' rest)
          show ?thesis
          proof (cases "c' = 93")
            case True
            with h Cons arr sk skip_ws_Cons_length [OF sk] show ?thesis
              by (auto simp add: scan_once.simps)
          next
            case False
            with h Cons arr sk obtain vals where
              p: "parse_array (c' # rest) = Inr (vals, r)"
              by (auto simp add: scan_once.simps split: sum.splits)
            from "1.IH"(2) [OF Cons _ _ _ sk] arr False p
            have "length r < length (c' # rest)" by simp
            with skip_ws_length [of cs] sk Cons show ?thesis by simp
          qed
        qed
      next
        case other
        with h Cons match_number_shorter [of "c # cs" v r] show ?thesis
          by (auto simp add: scan_once.simps [of "c # cs"] split: if_splits option.splits)
      qed
    qed
  qed
next
  case (2 s)
  show ?case
  proof (intro allI impI)
    fix vs r
    assume h: "parse_array s = Inr (vs, r)"
    from h obtain v rest where so: "scan_once s = Inr (v, rest)"
      by (cases "scan_once s") (auto simp add: parse_array.simps [of s])
    from h so have g: "length rest < length s"
      by (auto simp add: parse_array.simps [of s] split: if_splits)
    from h so g obtain c rest' where sk: "skip_ws rest = c # rest'"
      by (cases "skip_ws rest") (auto simp add: parse_array.simps [of s])
    note l = skip_ws_Cons_length [OF sk]
    from h so g sk consider (close) "c = 93" "r = rest'"
      | (comma) "c \<noteq> 93" "c = 44" "push v (parse_array (skip_ws rest')) = Inr (vs, r)"
      by (auto simp add: parse_array.simps [of s] split: if_splits)
    then show "length r < length s"
    proof cases
      case close
      with l g show ?thesis by simp
    next
      case comma
      from push_Inr [OF comma(3)] obtain xs where
        p: "parse_array (skip_ws rest') = Inr (xs, r)" by blast
      from "2.IH"(2) [OF so refl g sk] comma p
      have "length r < length (skip_ws rest')" by simp
      with skip_ws_length [of rest'] l g show ?thesis by simp
    qed
  qed
next
  case (3 s)
  show ?case
  proof (intro allI impI)
    fix kvs r
    assume "parse_object s = Inr (kvs, r)"
    note h = this [unfolded parse_object.simps [of s]]
    from h obtain q s1 where s: "s = q # s1"
      by (cases s) auto
    from h s have q: "q = 34"
      by (auto split: if_splits)
    from h s q obtain key s2 where ss: "scanstring s1 = Inr (key, s2)"
      by (cases "scanstring s1") auto
    from h s q ss obtain colon s3 where sk: "skip_ws s2 = colon # s3"
      by (cases "skip_ws s2") auto
    from h s q ss sk have co: "colon = 58"
      by (auto split: if_splits)
    from h s q ss sk co obtain v s4 where so: "scan_once (skip_ws s3) = Inr (v, s4)"
      by (cases "scan_once (skip_ws s3)") auto
    from h s q ss sk co so have g: "length s4 < length s"
      by (auto split: if_splits)
    from h s q ss sk co so g obtain c s5 where sk2: "skip_ws s4 = c # s5"
      by (cases "skip_ws s4") auto
    note l = skip_ws_Cons_length [OF sk2]
    from h s q ss sk co so g sk2 consider (close) "c = 125" "r = s5"
      | (comma) "c \<noteq> 125" "c = 44" "push (key, v) (parse_object (skip_ws s5)) = Inr (kvs, r)"
      by (auto split: if_splits)
    then show "length r < length s"
    proof cases
      case close
      with l g show ?thesis by simp
    next
      case comma
      from push_Inr [OF comma(3)] obtain xs where
        p: "parse_object (skip_ws s5) = Inr (xs, r)" by blast
      from "3.IH"(2) [OF s _ ss refl sk _ so refl g sk2] q co comma p
      have "length r < length (skip_ws s5)" by simp
      with skip_ws_length [of s5] l g show ?thesis by simp
    qed
  qed
qed

subsection \<open>Decoding an encoded string\<close>

lemma hex_value_hex_digit: "d < 16 \<Longrightarrow> hex_value (hex_digit d) = Some d"
  by (auto simp add: hex_value_def hex_digit_def)

lemma hex_digits_value:
  fixes n :: nat
  assumes "n < 65536"
  shows "((n div 4096 mod 16 * 16 + n div 256 mod 16) * 16 + n div 16 mod 16) * 16 + n mod 16 = n"
proof -
  have d2: "n div 256 = n div 16 div 16" and d3: "n div 4096 = n div 16 div 16 div 16"
    by (simp_all add: div_mult2_eq [symmetric])
  have "n div 4096 < 16"
    using assms by simp
  then have m: "n div 16 div 16 div 16 mod 16 = n div 16 div 16 div 16"
    unfolding d3 by simp
  have "((n div 16 div 16 div 16 * 16 + n div 16 div 16 mod 16) * 16 + n div 16 mod 16) * 16
          + n mod 16 = n"
    by simp
  then show ?thesis
    unfolding d2 d3 m .
qed

lemma decode_u_escape:
  assumes "n < 65536"
  shows "decode_uXXXX (drop 2 (u_escape n @ X)) = Some n"
proof -
  have "decode_uXXXX (drop 2 (u_escape n @ X)) =
          Some (((n div 4096 mod 16 * 16 + n div 256 mod 16) * 16 + n div 16 mod 16) * 16
                + n mod 16)"
    by (simp add: u_escape_def decode_uXXXX_def hex_value_hex_digit)
  then show ?thesis
    by (simp only: hex_digits_value [OF assms])
qed

lemma take2_u_escape: "take 2 (u_escape n @ X) = [92, 117]"
  by (simp add: u_escape_def)

lemma drop6_u_escape: "drop 6 (u_escape n @ X) = X"
  by (simp add: u_escape_def)

lemma scanstring_u_escape:
  "scanstring (u_escape n @ X) =
     (case decode_uXXXX (drop 2 (u_escape n @ X)) of
        None \<Rightarrow> Inl JSONDecodeError
      | Some uni \<Rightarrow>
          if is_high uni \<and> take 2 X = [92, 117] then
            (case decode_uXXXX (drop 2 X) of
               None \<Rightarrow> Inl JSONDecodeError
             | Some uni2 \<Rightarrow>
                 if is_low uni2 then
                   push (0x10000 + ((uni - 0xD800) * 1024 + (uni2 - 0xDC00)))
                     (scanstring (drop 6 X))
                 else push uni (scanstring X))
          else push uni (scanstring X))"
  by (simp add: u_escape_def is_high_def is_low_def split: option.split)

lemma escape_char_high: "is_high c \<Longrightarrow> escape_char c = u_escape c"
  by (simp add: escape_char_def is_high_def)

lemma escape_char_low: "is_low c \<Longrightarrow> escape_char c = u_escape c"
  by (simp add: escape_char_def is_low_def)

lemma scanstring_escape_char:
  assumes "c < 0x110000" and "\<not> is_high c"
  shows "scanstring (escape_char c @ X) = push c (scanstring X)"
proof -
  consider (short) "c = 92 \<or> c = 34 \<or> c = 8 \<or> c = 12 \<or> c = 10 \<or> c = 13 \<or> c = 9"
    | (plain) "32 \<le> c" "c \<le> 126" "c \<noteq> 92" "c \<noteq> 34"
    | (bmp) "c < 32 \<or> 126 < c" "c < 0x10000" "c \<noteq> 8" "c \<noteq> 12" "c \<noteq> 10" "c \<noteq> 13" "c \<noteq> 9"
    | (astral) "0x10000 \<le> c"
    by linarith
  then show ?thesis
  proof cases
    case short
    then show ?thesis
      by (auto simp add: escape_char_def BACKSLASH_def)
  next
    case plain
    then show ?thesis
      by (simp add: escape_char_def)
  next
    case bmp
    then have e: "escape_char c = u_escape c"
      by (auto simp add: escape_char_def)
    show ?thesis
      unfolding e scanstring_u_escape decode_u_escape [OF bmp(2)]
      using assms(2) by simp
  next
    case astral
    define d where "d = c - 0x10000"
    define hi where "hi = 0xD800 + d div 1024 mod 1024"
    define lo where "lo = 0xDC00 + d mod 1024"
    have d: "d < 1048576" "c = 0x10000 + d"
      using astral assms(1) by (simp_all add: d_def)
    have e: "escape_char c = u_escape hi @ u_escape lo"
      using astral by (simp add: escape_char_def hi_def lo_def d_def)
    have hi: "hi < 65536" "is_high hi" and lo: "lo < 65536" "is_low lo"
      by (simp_all add: hi_def lo_def is_high_def is_low_def)
    have dm: "d div 1024 mod 1024 = d div 1024"
      using d(1) by simp
    have v: "0x10000 + ((hi - 0xD800) * 1024 + (lo - 0xDC00)) = c"
      unfolding hi_def lo_def dm d(2) by simp
    have "scanstring (u_escape hi @ u_escape lo @ X) = push c (scanstring X)"
      unfolding scanstring_u_escape [of hi] decode_u_escape [OF hi(1)]
      using hi(2) lo(2) v
      by (simp add: take2_u_escape decode_u_escape [OF lo(1)] drop6_u_escape
          del: take_append drop_append)
    then show ?thesis
      by (simp add: e)
  qed
qed

lemma scanstring_high_end:
  assumes "is_high c"
  shows "scanstring (escape_char c @ 34 # rest) = push c (scanstring (34 # rest))"
proof -
  have c: "c < 65536" using assms by (simp add: is_high_def)
  show ?thesis
    unfolding escape_char_high [OF assms] scanstring_u_escape decode_u_escape [OF c]
    by simp
qed

lemma scanstring_high_low:
  assumes "is_high c" and "is_low l"
  shows "scanstring (escape_char c @ escape_char l @ X) =
           push (0x10000 + ((c - 0xD800) * 1024 + (l - 0xDC00))) (scanstring X)"
proof -
  have c: "c < 65536" using assms(1) by (simp add: is_high_def)
  have l: "l < 65536" using assms(2) by (simp add: is_low_def)
  show ?thesis
    unfolding escape_char_high [OF assms(1)] escape_char_low [OF assms(2)]
      scanstring_u_escape [of c] decode_u_escape [OF c]
    using assms
    by (simp add: take2_u_escape decode_u_escape [OF l] drop6_u_escape
        del: take_append drop_append)
qed

lemma take2_escape_char_short:
  assumes "c2 = 92 \<or> c2 = 34 \<or> c2 = 8 \<or> c2 = 12 \<or> c2 = 10 \<or> c2 = 13 \<or> c2 = 9"
  shows "take 2 (escape_char c2 @ Y) \<noteq> [92, 117]"
proof -
  have "escape_char 92 = [92, 92]" "escape_char 34 = [92, 34]" "escape_char 8 = [92, 98]"
    "escape_char 12 = [92, 102]" "escape_char 10 = [92, 110]" "escape_char 13 = [92, 114]"
    "escape_char 9 = [92, 116]"
    by (simp_all add: escape_char_def)
  with assms show ?thesis
    by (elim disjE) simp_all
qed

lemma take2_escape_char_plain:
  assumes "32 \<le> c2" "c2 \<le> 126" "c2 \<noteq> 92" "c2 \<noteq> 34"
  shows "take 2 (escape_char c2 @ Y) \<noteq> [92, 117]"
proof -
  have "escape_char c2 = [c2]"
    using assms by (simp add: escape_char_def)
  then show ?thesis
    using assms(3) by simp
qed

lemma not_low_after_high:
  assumes "c2 < 0x110000" and "\<not> is_low c2"
  shows "take 2 (escape_char c2 @ Y) \<noteq> [92, 117] \<or>
         (\<exists>u2. decode_uXXXX (drop 2 (escape_char c2 @ Y)) = Some u2 \<and> \<not> is_low u2)"
proof -
  consider (short) "c2 = 92 \<or> c2 = 34 \<or> c2 = 8 \<or> c2 = 12 \<or> c2 = 10 \<or> c2 = 13 \<or> c2 = 9"
    | (plain) "32 \<le> c2" "c2 \<le> 126" "c2 \<noteq> 92" "c2 \<noteq> 34"
    | (bmp) "c2 < 32 \<or> 126 < c2" "c2 < 0x10000" "c2 \<noteq> 8" "c2 \<noteq> 12" "c2 \<noteq> 10" "c2 \<noteq> 13" "c2 \<noteq> 9"
    | (astral) "0x10000 \<le> c2"
    by linarith
  then show ?thesis
  proof cases
    case short
    then show ?thesis by (rule disjI1 [OF take2_escape_char_short])
  next
    case plain
    then show ?thesis by (rule disjI1 [OF take2_escape_char_plain])
  next
    case bmp
    then have e: "escape_char c2 = u_escape c2"
      by (auto simp add: escape_char_def)
    have "decode_uXXXX (drop 2 (escape_char c2 @ Y)) = Some c2"
      unfolding e by (rule decode_u_escape [OF bmp(2)])
    with assms(2) show ?thesis by blast
  next
    case astral
    define hi where "hi = 0xD800 + (c2 - 0x10000) div 1024 mod 1024"
    have e: "escape_char c2 @ Y = u_escape hi @ (u_escape (0xDC00 + (c2 - 0x10000) mod 1024) @ Y)"
      using astral by (simp add: escape_char_def hi_def)
    have hi: "hi < 65536" "\<not> is_low hi"
      by (simp_all add: hi_def is_low_def)
    have "decode_uXXXX (drop 2 (escape_char c2 @ Y)) = Some hi"
      unfolding e by (rule decode_u_escape [OF hi(1)])
    with hi(2) show ?thesis by blast
  qed
qed

lemma scanstring_high_other:
  assumes "is_high c" and "c2 < 0x110000" and "\<not> is_low c2"
  shows "scanstring (escape_char c @ escape_char c2 @ Y) =
           push c (scanstring (escape_char c2 @ Y))"
proof -
  have c: "c < 65536" using assms(1) by (simp add: is_high_def)
  from not_low_after_high [OF assms(2,3), of Y]
  show ?thesis
    unfolding escape_char_high [OF assms(1)] scanstring_u_escape [of c] decode_u_escape [OF c]
    by auto
qed

lemma scanstring_encoded:
  "code_points t \<Longrightarrow>
   scanstring (concat (map escape_char t) @ 34 # rest) = Inr (join_surrogates t, rest)"
proof (induction t rule: induct_list012)
  case 1
  show ?case by simp
next
  case (2 c)
  then have v: "c < 0x110000" by (simp add: code_points_def)
  show ?case
  proof (cases "is_high c")
    case True
    from scanstring_high_end [OF True, of rest] show ?thesis
      by (simp add: push_def)
  next
    case False
    from scanstring_escape_char [OF v False, of "34 # rest"] show ?thesis
      by (simp add: push_def)
  qed
next
  case (3 c c2 zs)
  from "3.prems" have v: "c < 0x110000" "c2 < 0x110000"
    and t: "code_points zs" "code_points (c2 # zs)"
    by (simp_all add: code_points_def)
  note ih1 = "3.IH"(1) [OF t(1)] and ih2 = "3.IH"(2) [OF t(2)]
  let ?Y = "concat (map escape_char zs) @ 34 # rest"
  show ?case
  proof (cases "is_high c")
    case False
    from scanstring_escape_char [OF v(1) False, of "escape_char c2 @ ?Y"] ih2
    show ?thesis
      using False by (simp add: push_def)
  next
    case True
    show ?thesis
    proof (cases "is_low c2")
      case low: True
      from scanstring_high_low [OF True low, of ?Y] ih1 show ?thesis
        using True low by (simp add: push_def)
    next
      case other: False
      from scanstring_high_other [OF True v(2) other, of ?Y] ih2 show ?thesis
        using True other by (simp add: push_def)
    qed
  qed
qed

subsection \<open>The encoder writes code points\<close>

lemma code_points_append [simp]: "code_points (a @ b) = (code_points a \<and> code_points b)"
  by (simp add: code_points_def)

lemma code_points_Nil [simp]: "code_points []"
  by (simp add: code_points_def)

lemma code_points_Cons [simp]: "code_points (c # s) = (c < 0x110000 \<and> code_points s)"
  by (simp add: code_points_def)

lemma code_points_replicate [simp]: "code_points (replicate n c) = (n = 0 \<or> c < 0x110000)"
  by (induction n) auto

lemma code_points_concat: "list_all code_points xs \<Longrightarrow> code_points (concat xs)"
  by (induction xs) simp_all

lemma hex_digit_small: "d < 16 \<Longrightarrow> hex_digit d < 128"
  by (simp add: hex_digit_def)

lemma code_points_u_escape [simp]: "code_points (u_escape n)"
proof -
  have "hex_digit (n div 4096 mod 16) < 128" "hex_digit (n div 256 mod 16) < 128"
    "hex_digit (n div 16 mod 16) < 128" "hex_digit (n mod 16) < 128"
    by (simp_all add: hex_digit_small)
  then show ?thesis
    by (simp add: u_escape_def)
qed

lemma code_points_escape_char [simp]: "code_points (escape_char c)"
  by (simp add: escape_char_def)

lemma code_points_encode [simp]: "code_points (encode_basestring_ascii s)"
  by (simp add: encode_basestring_ascii_def code_points_concat list_all_iff)

lemma code_points_decimal [simp]: "code_points (decimal n)"
proof (induction n rule: decimal.induct)
  case (1 n)
  have "n mod 10 < 10" by simp
  then have m: "48 + n mod 10 < 1114112" by linarith
  show ?case
  proof (cases "n < 10")
    case True
    then show ?thesis by (simp add: decimal.simps [of n])
  next
    case False
    with 1 m show ?thesis by (simp add: decimal.simps [of n])
  qed
qed

lemma code_points_int_repr [simp]: "code_points (int_repr i)"
  by (simp add: int_repr_def)

lemma code_points_join:
  "code_points sep \<Longrightarrow> list_all code_points xs \<Longrightarrow> code_points (join sep xs)"
  by (induction sep xs rule: join.induct) simp_all

lemma code_points_newline_indent [simp]: "code_points (newline_indent i l)"
  by (simp add: newline_indent_def)

lemma code_points_iterencode:
  "(\<And>x. code_points (float_repr F x)) \<Longrightarrow> code_points (iterencode F indent level v)"
proof (induction F indent level v rule: iterencode.induct)
  case (6 F indent level xs)
  then show ?case
    by (simp add: code_points_join list_all_iff)
next
  case (7 F indent level kvs)
  then show ?case
    by (simp add: code_points_join list_all_iff)
qed simp_all

section \<open>Theorems about generate_content.py\<close>

lemma dumps_text_block:
  "json_dumps F 2 (PyDict [(py ''type'', PyStr (py ''text'')), (py ''text'', PyStr t)]) @ [10] =
     py ''{\<newline>  \"type\": \"text\",\<newline>  \"text\": '' @ encode_basestring_ascii t @ py ''\<newline>}\<newline>''"
  by (simp add: dumps_eval)

lemma loads_text_block:
  assumes "code_points t"
  shows "json_loads (py ''{\<newline>  \"type\": \"text\",\<newline>  \"text\": '' @ encode_basestring_ascii t @ py ''\<newline>}\<newline>'') =
           Inr (PyDict [(py ''type'', PyStr (py ''text'')), (py ''text'', PyStr (join_surrogates t))])"
  by (simp add: json_eval encode_basestring_ascii_def scanstring_encoded [OF assms])

lemma load_globals_absent:
  "environ w (py ''DIVE_GLOBALS'') = None \<Longrightarrow> load_globals w = Inr (PyDict [])"
  by (simp add: load_globals_def os_getenv_def)

lemma loads_braces: "json_loads [123, 125] = Inr (PyDict [])"
  by (simp add: json_eval)

lemma load_globals_braces:
  "environ w (py ''DIVE_GLOBALS'') = Some (py ''{}'') \<Longrightarrow> load_globals w = Inr (PyDict [])"
  by (simp add: load_globals_def os_getenv_def loads_braces)

lemma load_globals_loads:
  "environ w (py ''DIVE_GLOBALS'') = Some env \<Longrightarrow> env \<noteq> [] \<Longrightarrow> load_globals w = json_loads env"
  by (simp add: load_globals_def os_getenv_def)

lemma build_content_loaded:
  assumes "load_globals w = Inr g"
  shows "build_content F w =
           Inr [(py ''type'', PyStr (py ''text'')),
                (py ''text'', PyStr (if truthy F g
                                      then generated_text w @ globals_marker @ json_dumps F 2 g
                                      else generated_text w))]"
  using assms by (simp add: build_content_def Let_def text_of_def globals_marker_def)

lemma build_content_failed:
  "load_globals w = Inl e \<Longrightarrow> build_content F w = Inl e"
  by (simp add: build_content_def)

lemma text_of_block [simp]:
  "text_of [(py ''type'', PyStr (py ''text'')), (py ''text'', PyStr t)] = t"
  by (simp add: text_of_def)

lemma generate_content_loaded:
  assumes "build_content F w = Inr [(py ''type'', PyStr (py ''text'')), (py ''text'', PyStr t)]"
  shows "generate_content F w =
           \<lparr>stdout_text = py ''{\<newline>  \"type\": \"text\",\<newline>  \"text\": '' @ encode_basestring_ascii t @ py ''\<newline>}\<newline>'',
            exit_code = 0\<rparr>"
  using assms dumps_text_block [of F t] by (simp add: generate_content_def)

lemma generate_content_failed:
  "load_globals w = Inl e \<Longrightarrow> generate_content F w = \<lparr>stdout_text = [], exit_code = 1\<rparr>"
  by (simp add: generate_content_def build_content_failed)

lemma loads_alice_compact:
  "json_loads (py ''{\"user\":\"Alice\"}'') = Inr (PyDict [(py ''user'', PyStr (py ''Alice''))])"
  by (simp add: json_eval)

lemma loads_alice_indented:
  "json_loads (py ''{\<newline>  \"user\": \"Alice\"\<newline>}'') = Inr (PyDict [(py ''user'', PyStr (py ''Alice''))])"
  by (simp add: json_eval)

lemma dumps_alice:
  "json_dumps F 2 (PyDict [(py ''user'', PyStr (py ''Alice''))]) = py ''{\<newline>  \"user\": \"Alice\"\<newline>}''"
  by (simp add: dumps_eval)

lemma code_points_generated_text:
  "code_points (now_isoformat w) \<Longrightarrow> code_points (generated_text w)"
  by (simp add: generated_text_def)

lemma code_points_globals_marker [simp]: "code_points globals_marker"
  by (simp add: globals_marker_def)

lemma code_points_echo: "code_points (float_repr echo_floats x)"
  by (simp add: echo_floats_def code_points_def list_all_iff)

text \<open>
  C3, as stated, fails. The claim: with the context channel set to \<open>{"user":"Alice"}\<close>
  the text of the content block contains that JSON string verbatim. The script decodes
  the variable and writes the value again with \<open>json.dumps(globals_data, indent=2)\<close>, so
  the text holds the object over three lines, with a blank after the colon. The compact
  string occurs neither in \<open>content["text"]\<close>, nor in the text field of the object read
  back from standard output, nor in standard output itself.
\<close>

theorem globals_not_verbatim_counterexample:
  "environ alice_world (py ''DIVE_GLOBALS'') = Some (py ''{\"user\":\"Alice\"}'')
   \<and> build_content echo_floats alice_world =
        Inr [(py ''type'', PyStr (py ''text'')),
             (py ''text'', PyStr (py ''Generated at 2025-01-02T03:04:05.678901 by external Python script\<newline>Workflow globals: {\<newline>  \"user\": \"Alice\"\<newline>}''))]
   \<and> json_loads (stdout_text (generate_content echo_floats alice_world)) =
        Inr (PyDict [(py ''type'', PyStr (py ''text'')),
             (py ''text'', PyStr (py ''Generated at 2025-01-02T03:04:05.678901 by external Python script\<newline>Workflow globals: {\<newline>  \"user\": \"Alice\"\<newline>}''))])
   \<and> \<not> sublist (py ''{\"user\":\"Alice\"}'')
         (py ''Generated at 2025-01-02T03:04:05.678901 by external Python script\<newline>Workflow globals: {\<newline>  \"user\": \"Alice\"\<newline>}'')
   \<and> \<not> sublist (py ''{\"user\":\"Alice\"}'') (stdout_text (generate_content echo_floats alice_world))"
proof -
  let ?t = "py ''Generated at 2025-01-02T03:04:05.678901 by external Python script\<newline>Workflow globals: {\<newline>  \"user\": \"Alice\"\<newline>}''"
  have a: "environ alice_world (py ''DIVE_GLOBALS'') = Some (py ''{\"user\":\"Alice\"}'')"
    by (simp add: alice_world_def)
  have l: "load_globals alice_world = Inr (PyDict [(py ''user'', PyStr (py ''Alice''))])"
    using load_globals_loads [OF a] loads_alice_compact by simp
  have b: "build_content echo_floats alice_world =
        Inr [(py ''type'', PyStr (py ''text'')), (py ''text'', PyStr ?t)]"
    unfolding build_content_loaded [OF l] dumps_alice globals_marker_def
    by (simp add: generated_text_def alice_world_def)
  have c: "code_points ?t" by simp
  have j: "join_surrogates ?t = ?t" by (simp add: is_high_def)
  have p: "json_loads (stdout_text (generate_content echo_floats alice_world)) =
        Inr (PyDict [(py ''type'', PyStr (py ''text'')), (py ''text'', PyStr ?t)])"
    unfolding generate_content_loaded [OF b] using loads_text_block [OF c] j by simp
  have n1: "\<not> sublist (py ''{\"user\":\"Alice\"}'') ?t"
    by (simp add: sublist_code)
  have n2: "\<not> sublist (py ''{\"user\":\"Alice\"}'') (stdout_text (generate_content echo_floats alice_world))"
    unfolding generate_content_loaded [OF b]
    by (simp add: sublist_code dumps_eval)
  from a b p n1 n2 show ?thesis by blast
qed

text \<open>
  C3, amended. With the context channel set to \<open>{"user":"Alice"}\<close>, the text of the
  content block is the generated line followed by \<open>Workflow globals: \<close> and the same JSON
  object written again with an indent of two blanks: it contains that serialization,
  which decodes to the value the compact string decodes to.
\<close>

theorem globals_reserialized:
  assumes "environ w (py ''DIVE_GLOBALS'') = Some (py ''{\"user\":\"Alice\"}'')"
  shows "build_content F w =
           Inr [(py ''type'', PyStr (py ''text'')),
                (py ''text'', PyStr (generated_text w @ py ''\<newline>Workflow globals: ''
                                      @ py ''{\<newline>  \"user\": \"Alice\"\<newline>}''))]
       \<and> sublist (py ''{\<newline>  \"user\": \"Alice\"\<newline>}'')
             (generated_text w @ py ''\<newline>Workflow globals: ''
                @ py ''{\<newline>  \"user\": \"Alice\"\<newline>}'')
       \<and> json_loads (py ''{\<newline>  \"user\": \"Alice\"\<newline>}'')
           = json_loads (py ''{\"user\":\"Alice\"}'')"
proof -
  have l: "load_globals w = Inr (PyDict [(py ''user'', PyStr (py ''Alice''))])"
    using load_globals_loads [OF assms] loads_alice_compact by simp
  have b: "build_content F w =
           Inr [(py ''type'', PyStr (py ''text'')),
                (py ''text'', PyStr (generated_text w @ py ''\<newline>Workflow globals: ''
                                      @ py ''{\<newline>  \"user\": \"Alice\"\<newline>}''))]"
    unfolding build_content_loaded [OF l] dumps_alice globals_marker_def by simp
  have s: "sublist (py ''{\<newline>  \"user\": \"Alice\"\<newline>}'')
             (generated_text w @ py ''\<newline>Workflow globals: ''
                @ py ''{\<newline>  \"user\": \"Alice\"\<newline>}'')"
    unfolding sublist_def
    by (rule exI [of _ "generated_text w @ py ''\<newline>Workflow globals: ''"], rule exI [of _ "[]"]) simp
  from b s loads_alice_compact loads_alice_indented show ?thesis
    by simp
qed

theorem globals_reserialized_witness:
  "environ alice_world (py ''DIVE_GLOBALS'') = Some (py ''{\"user\":\"Alice\"}'')
   \<and> build_content echo_floats alice_world =
        Inr [(py ''type'', PyStr (py ''text'')),
             (py ''text'', PyStr (py ''Generated at 2025-01-02T03:04:05.678901 by external Python script\<newline>Workflow globals: {\<newline>  \"user\": \"Alice\"\<newline>}''))]
   \<and> sublist (py ''{\<newline>  \"user\": \"Alice\"\<newline>}'')
         (py ''Generated at 2025-01-02T03:04:05.678901 by external Python script\<newline>Workflow globals: {\<newline>  \"user\": \"Alice\"\<newline>}'')"
proof -
  have a: "environ alice_world (py ''DIVE_GLOBALS'') = Some (py ''{\"user\":\"Alice\"}'')"
    by (simp add: alice_world_def)
  have g: "generated_text alice_world @ py ''\<newline>Workflow globals: '' @ py ''{\<newline>  \"user\": \"Alice\"\<newline>}''
           = py ''Generated at 2025-01-02T03:04:05.678901 by external Python script\<newline>Workflow globals: {\<newline>  \"user\": \"Alice\"\<newline>}''"
    by (simp add: generated_text_def alice_world_def)
  from globals_reserialized [OF a, of echo_floats] a show ?thesis
    unfolding g by simp
qed

text \<open>
  C4. A run without the environment entry and a run with the entry set to \<open>{}\<close> both
  succeed (exit status 0), both leave the text of the content block without a globals
  section (it is the generated line and nothing more), and at the same clock reading
  they write the same output. When the entry decodes to a JSON object, the globals
  section is appended exactly when the object is not empty.
\<close>

theorem absent_and_empty_globals_agree:
  assumes "environ w1 (py ''DIVE_GLOBALS'') = None"
    and "environ w2 (py ''DIVE_GLOBALS'') = Some (py ''{}'')"
  shows "build_content F w1 =
           Inr [(py ''type'', PyStr (py ''text'')), (py ''text'', PyStr (generated_text w1))]
       \<and> build_content F w2 =
           Inr [(py ''type'', PyStr (py ''text'')), (py ''text'', PyStr (generated_text w2))]
       \<and> exit_code (generate_content F w1) = 0
       \<and> exit_code (generate_content F w2) = 0
       \<and> (now_isoformat w1 = now_isoformat w2 \<longrightarrow> generate_content F w1 = generate_content F w2)
       \<and> (\<forall>w env kvs. environ w (py ''DIVE_GLOBALS'') = Some env \<and> env \<noteq> []
             \<and> json_loads env = Inr (PyDict kvs) \<longrightarrow>
            build_content F w =
              Inr [(py ''type'', PyStr (py ''text'')),
                   (py ''text'', PyStr (if kvs \<noteq> []
                       then generated_text w @ globals_marker @ json_dumps F 2 (PyDict kvs)
                       else generated_text w))])"
proof -
  have b1: "build_content F w1 =
           Inr [(py ''type'', PyStr (py ''text'')), (py ''text'', PyStr (generated_text w1))]"
    using build_content_loaded [OF load_globals_absent [OF assms(1)], of F] by simp
  have b2: "build_content F w2 =
           Inr [(py ''type'', PyStr (py ''text'')), (py ''text'', PyStr (generated_text w2))]"
    using build_content_loaded [OF load_globals_braces [OF assms(2)], of F] by simp
  have e: "generate_content F w1 = generate_content F w2" if "now_isoformat w1 = now_isoformat w2"
    using that generate_content_loaded [OF b1] generate_content_loaded [OF b2]
    by (simp add: generated_text_def)
  have g: "build_content F w =
              Inr [(py ''type'', PyStr (py ''text'')),
                   (py ''text'', PyStr (if kvs \<noteq> []
                       then generated_text w @ globals_marker @ json_dumps F 2 (PyDict kvs)
                       else generated_text w))]"
    if "environ w (py ''DIVE_GLOBALS'') = Some env" "env \<noteq> []" "json_loads env = Inr (PyDict kvs)"
    for w env kvs
    using build_content_loaded [of w "PyDict kvs" F] load_globals_loads [OF that(1,2)] that(3)
    by simp
  from b1 b2 e g generate_content_loaded [OF b1] generate_content_loaded [OF b2]
  show ?thesis by simp
qed

theorem absent_and_empty_globals_agree_witness:
  "environ empty_world (py ''DIVE_GLOBALS'') = None
   \<and> environ braces_world (py ''DIVE_GLOBALS'') = Some (py ''{}'')
   \<and> generate_content echo_floats empty_world = generate_content echo_floats braces_world
   \<and> exit_code (generate_content echo_floats empty_world) = 0
   \<and> build_content echo_floats braces_world =
        Inr [(py ''type'', PyStr (py ''text'')),
             (py ''text'', PyStr (py ''Generated at 2025-01-02T03:04:05.678901 by external Python script''))]
   \<and> \<not> sublist globals_marker (py ''Generated at 2025-01-02T03:04:05.678901 by external Python script'')
   \<and> build_content echo_floats alice_world =
        Inr [(py ''type'', PyStr (py ''text'')),
             (py ''text'', PyStr (generated_text alice_world @ globals_marker
                @ json_dumps echo_floats 2 (PyDict [(py ''user'', PyStr (py ''Alice''))])))]"
proof -
  have a: "environ empty_world (py ''DIVE_GLOBALS'') = None"
    by (simp add: empty_world_def)
  have b: "environ braces_world (py ''DIVE_GLOBALS'') = Some (py ''{}'')"
    by (simp add: braces_world_def)
  have c: "now_isoformat empty_world = now_isoformat braces_world"
    by (simp add: empty_world_def braces_world_def)
  have g: "generated_text braces_world = py ''Generated at 2025-01-02T03:04:05.678901 by external Python script''"
    by (simp add: generated_text_def braces_world_def)
  have n: "\<not> sublist globals_marker (py ''Generated at 2025-01-02T03:04:05.678901 by external Python script'')"
    by (simp add: sublist_code globals_marker_def)
  have d: "environ alice_world (py ''DIVE_GLOBALS'') = Some (py ''{\"user\":\"Alice\"}'')
      \<and> py ''{\"user\":\"Alice\"}'' \<noteq> []
      \<and> json_loads (py ''{\"user\":\"Alice\"}'') = Inr (PyDict [(py ''user'', PyStr (py ''Alice''))])"
    using loads_alice_compact by (simp add: alice_world_def)
  note th = absent_and_empty_globals_agree [OF a b, of echo_floats]
  from th c have 1: "generate_content echo_floats empty_world = generate_content echo_floats braces_world"
    by blast
  from th have 2: "exit_code (generate_content echo_floats empty_world) = 0"
    by blast
  from th have 3: "build_content echo_floats braces_world =
        Inr [(py ''type'', PyStr (py ''text'')), (py ''text'', PyStr (generated_text braces_world))]"
    by blast
  from th d have 4: "build_content echo_floats alice_world =
        Inr [(py ''type'', PyStr (py ''text'')),
             (py ''text'', PyStr (if [(py ''user'', PyStr (py ''Alice''))] \<noteq> []
                then generated_text alice_world @ globals_marker
                   @ json_dumps echo_floats 2 (PyDict [(py ''user'', PyStr (py ''Alice''))])
                else generated_text alice_world))]"
    by blast
  from a b 1 2 3 4 n show ?thesis
    unfolding g by simp
qed

text \<open>
  C6. On a successful run (no exception: the environment entry is absent, empty or
  decodes), the exit status is 0 and standard output is the text of one JSON object:
  \<open>json.loads\<close> accepts the whole output and returns an object whose \<open>type\<close> is the
  string \<open>text\<close> and whose \<open>text\<close> is a string. The two side conditions say that the
  clock text and the \<open>repr\<close> of a float are Python strings.
\<close>

theorem successful_run_writes_one_object:
  assumes "load_globals w = Inr g"
    and "code_points (now_isoformat w)"
    and "\<And>x. code_points (float_repr F x)"
  shows "exit_code (generate_content F w) = 0
       \<and> (\<exists>t. stdout_text (generate_content F w) =
                 py ''{\<newline>  \"type\": \"text\",\<newline>  \"text\": '' @ encode_basestring_ascii t
                   @ py ''\<newline>}\<newline>'')
       \<and> (\<exists>t. json_loads (stdout_text (generate_content F w)) =
                 Inr (PyDict [(py ''type'', PyStr (py ''text'')), (py ''text'', PyStr t)]))"
proof -
  define t where "t = (if truthy F g then generated_text w @ globals_marker @ json_dumps F 2 g
                       else generated_text w)"
  have b: "build_content F w = Inr [(py ''type'', PyStr (py ''text'')), (py ''text'', PyStr t)]"
    unfolding t_def by (rule build_content_loaded [OF assms(1)])
  have "code_points (json_dumps F 2 g)"
    unfolding json_dumps_def by (rule code_points_iterencode [OF assms(3)])
  with code_points_generated_text [OF assms(2)] have c: "code_points t"
    by (simp add: t_def)
  note out = generate_content_loaded [OF b]
  have 1: "exit_code (generate_content F w) = 0"
    unfolding out by simp
  have 2: "stdout_text (generate_content F w) =
             py ''{\<newline>  \"type\": \"text\",\<newline>  \"text\": '' @ encode_basestring_ascii t
               @ py ''\<newline>}\<newline>''"
    unfolding out by simp
  have 3: "json_loads (stdout_text (generate_content F w)) =
             Inr (PyDict [(py ''type'', PyStr (py ''text'')),
                          (py ''text'', PyStr (join_surrogates t))])"
    unfolding 2 by (rule loads_text_block [OF c])
  from 1 2 3 show ?thesis by blast
qed

theorem successful_run_writes_one_object_witness:
  "load_globals braces_world = Inr (PyDict [])
   \<and> code_points (now_isoformat braces_world)
   \<and> (\<forall>x. code_points (float_repr echo_floats x))
   \<and> exit_code (generate_content echo_floats braces_world) = 0
   \<and> (\<exists>t. stdout_text (generate_content echo_floats braces_world) =
             py ''{\<newline>  \"type\": \"text\",\<newline>  \"text\": '' @ encode_basestring_ascii t
               @ py ''\<newline>}\<newline>'')
   \<and> (\<exists>t. json_loads (stdout_text (generate_content echo_floats braces_world)) =
             Inr (PyDict [(py ''type'', PyStr (py ''text'')), (py ''text'', PyStr t)]))
   \<and> stdout_text (generate_content echo_floats braces_world) =
        py ''{\<newline>  \"type\": \"text\",\<newline>  \"text\": \"Generated at 2025-01-02T03:04:05.678901 by external Python script\"\<newline>}\<newline>''"
proof -
  have a: "load_globals braces_world = Inr (PyDict [])"
    by (rule load_globals_braces) (simp add: braces_world_def)
  have b: "code_points (now_isoformat braces_world)"
    by (simp add: braces_world_def)
  have s: "stdout_text (generate_content echo_floats braces_world) =
        py ''{\<newline>  \"type\": \"text\",\<newline>  \"text\": \"Generated at 2025-01-02T03:04:05.678901 by external Python script\"\<newline>}\<newline>''"
    using build_content_loaded [OF a, of echo_floats]
    by (simp add: generate_content_def generated_text_def braces_world_def dumps_eval)
  from successful_run_writes_one_object [OF a b code_points_echo] a b code_points_echo s
  show ?thesis by blast
qed

text \<open>
  C9. The script reads the workflow globals from the environment entry named
  \<open>DIVE_GLOBALS\<close> and from nowhere else: two runs that agree on this one entry load the
  same globals, whatever the rest of the environment, the command line and standard
  input hold, and at the same clock reading they build the same content and write the
  same output.
\<close>

theorem globals_read_from_DIVE_GLOBALS:
  assumes "environ w1 (py ''DIVE_GLOBALS'') = environ w2 (py ''DIVE_GLOBALS'')"
  shows "load_globals w1 = load_globals w2
       \<and> (now_isoformat w1 = now_isoformat w2 \<longrightarrow>
            build_content F w1 = build_content F w2
          \<and> generate_content F w1 = generate_content F w2)"
proof -
  have l: "load_globals w1 = load_globals w2"
    using assms by (simp add: load_globals_def os_getenv_def)
  have b: "build_content F w1 = build_content F w2" if "now_isoformat w1 = now_isoformat w2"
  proof -
    have g: "generated_text w1 = generated_text w2"
      using that by (simp add: generated_text_def)
    show ?thesis
      unfolding build_content_def l g ..
  qed
  from l b show ?thesis
    by (simp add: generate_content_def)
qed

theorem globals_read_from_DIVE_GLOBALS_witness:
  "environ alice_world (py ''DIVE_GLOBALS'') = environ noisy_alice_world (py ''DIVE_GLOBALS'')
   \<and> environ alice_world (py ''HOME'') \<noteq> environ noisy_alice_world (py ''HOME'')
   \<and> argv alice_world \<noteq> argv noisy_alice_world
   \<and> stdin alice_world \<noteq> stdin noisy_alice_world
   \<and> load_globals alice_world = load_globals noisy_alice_world
   \<and> generate_content echo_floats alice_world = generate_content echo_floats noisy_alice_world
   \<and> load_globals alice_world \<noteq> load_globals empty_world"
proof -
  have a: "environ alice_world (py ''DIVE_GLOBALS'') = environ noisy_alice_world (py ''DIVE_GLOBALS'')"
    by (simp add: alice_world_def noisy_alice_world_def)
  have c: "now_isoformat alice_world = now_isoformat noisy_alice_world"
    by (simp add: alice_world_def noisy_alice_world_def)
  have d: "environ alice_world (py ''HOME'') \<noteq> environ noisy_alice_world (py ''HOME'')"
    "argv alice_world \<noteq> argv noisy_alice_world" "stdin alice_world \<noteq> stdin noisy_alice_world"
    by (simp_all add: alice_world_def noisy_alice_world_def)
  have e: "load_globals alice_world = Inr (PyDict [(py ''user'', PyStr (py ''Alice''))])"
    using load_globals_loads [of alice_world "py ''{\"user\":\"Alice\"}''"] loads_alice_compact
    by (simp add: alice_world_def)
  have f: "load_globals empty_world = Inr (PyDict [])"
    by (rule load_globals_absent) (simp add: empty_world_def)
  have n: "load_globals alice_world \<noteq> load_globals empty_world"
    unfolding e f by simp
  from globals_read_from_DIVE_GLOBALS [OF a, of echo_floats] a c d n show ?thesis
    by blast
qed


end
